theory Spec2Isabelle
  imports Complex_Main
begin

section \<open>Values, texts and Outcomes\<close>

text \<open>
  The repository is a catalogue of tool handlers registered on one protocol server.
  Every handler returns \<^verbatim>\<open>{ content: [{ type: 'text', text: ... }], isError?: true }\<close>.

  JavaScript values that reach a log line, a \<^verbatim>\<open>JSON.stringify\<close> call or a \<^verbatim>\<open>throw\<close>
  are values of \<open>jsval\<close>; \<open>JError m\<close> is an \<^verbatim>\<open>Error\<close> object whose \<^verbatim>\<open>message\<close> is \<open>m\<close>.
\<close>

datatype jsval =
    JUndefined
  | JNull
  | JBool bool
  | JNum real
  | JStr string
  | JArr "jsval list"
  | JObj "(string \<times> jsval) list"
  | JError string

text \<open>
  A text is kept as the template literal that builds it: literal and interpolated strings
  are \<open>Lit\<close>, an interpolated number is \<open>Num\<close>, the result of
  \<^verbatim>\<open>JSON.stringify(v, null, 2)\<close> is \<open>Stringified v\<close>, and a value handed to
  \<^verbatim>\<open>console.error\<close> as a further argument is \<open>Val v\<close>.
\<close>

datatype piece = Lit string | Num real | Stringified jsval | Val jsval

type_synonym jstext = "piece list"

datatype content_block = TextBlock jstext

record outcome =
  content :: "content_block list"
  isError :: "bool option"

text \<open>\<^verbatim>\<open>{ content: [{ type: 'text', text: t }] }\<close>: the flag is absent.\<close>

definition success :: "jstext \<Rightarrow> outcome" where
  "success t = \<lparr>content = [TextBlock t], isError = None\<rparr>"

text \<open>\<^verbatim>\<open>{ content: [{ type: 'text', text: t }], isError: true }\<close>.\<close>

definition failure :: "jstext \<Rightarrow> outcome" where
  "failure t = \<lparr>content = [TextBlock t], isError = Some True\<rparr>"

text \<open>
  An \<^verbatim>\<open>async\<close> handler either resolves to an Outcome or rejects with the thrown value.
\<close>

datatype 'a settled = Resolved 'a | Rejected jsval

text \<open>\<^verbatim>\<open>error.message\<close> of a caught value, as a text.\<close>

fun message :: "jsval \<Rightarrow> jstext" where
  "message (JError m) = [Lit m]"
| "message (JObj kvs) = (case map_of kvs ''message'' of Some v \<Rightarrow> [Val v] | None \<Rightarrow> [Val JUndefined])"
| "message v = [Val JUndefined]"

text \<open>\<^verbatim>\<open>error instanceof Error ? error.message : String(error)\<close>.\<close>

fun errorMessage :: "jsval \<Rightarrow> jstext" where
  "errorMessage (JError m) = [Lit m]"
| "errorMessage v = [Val v]"


section \<open>Timeout utilities (utils/timeout)\<close>

text \<open>
  \<^verbatim>\<open>normalizeTimeout(timeout?, defaultTimeout = 120, maxTimeout = 600)\<close>: seconds in,
  milliseconds out. The schemas declare \<^verbatim>\<open>timeout: z.number().optional()\<close>, so the argument
  is a number or absent; \<^verbatim>\<open>??\<close> takes the default when it is absent.
\<close>

definition normalizeTimeout :: "real option \<Rightarrow> real \<Rightarrow> real \<Rightarrow> real" where
  "normalizeTimeout timeout defaultTimeout maxTimeout =
     (let timeoutSeconds = (case timeout of None \<Rightarrow> defaultTimeout | Some t \<Rightarrow> t);
          clampedTimeout = min (max timeoutSeconds 1) maxTimeout
      in clampedTimeout * 1000)"

text \<open>The call every handler makes: \<^verbatim>\<open>normalizeTimeout(timeout)\<close>, both defaults in place.\<close>

definition normalizeTimeout1 :: "real option \<Rightarrow> real" where
  "normalizeTimeout1 timeout = normalizeTimeout timeout 120 600"

text \<open>
  A promise is what it settles to and after how many milliseconds (\<open>None\<close>: never).
  \<^verbatim>\<open>withTimeout\<close> races it against a timer of \<open>timeoutMs\<close>; the timer wins when the
  promise has not settled strictly before it fires.
\<close>

record 'a promise =
  settles_after :: "real option"
  settles_to :: "'a settled"

definition withTimeout :: "'a promise \<Rightarrow> real \<Rightarrow> jstext \<Rightarrow> 'a settled + jstext" where
  "withTimeout p timeoutMs timeoutMessage =
     (case settles_after p of
        None \<Rightarrow> Inr timeoutMessage
      | Some d \<Rightarrow> if d < timeoutMs then Inl (settles_to p) else Inr timeoutMessage)"


section \<open>Process-level safety net (index.ts)\<close>

datatype proc_status = Running | Exited nat

record process =
  status :: proc_status
  console_error :: "jstext list"
  console_log :: "jstext list"

definition process_exit :: "nat \<Rightarrow> process \<Rightarrow> process" where
  "process_exit code p = p\<lparr>status := Exited code\<rparr>"

definition log_error :: "jstext \<Rightarrow> process \<Rightarrow> process" where
  "log_error line p = p\<lparr>console_error := console_error p @ [line]\<rparr>"

definition log_info :: "jstext \<Rightarrow> process \<Rightarrow> process" where
  "log_info line p = p\<lparr>console_log := console_log p @ [line]\<rparr>"

text \<open>\<^verbatim>\<open>process.on('uncaughtException', (error) => { console.error(...); process.exit(1); })\<close>\<close>

definition on_uncaughtException :: "jsval \<Rightarrow> process \<Rightarrow> process" where
  "on_uncaughtException error p =
     process_exit 1 (log_error [Lit ''Uncaught Exception:'', Val error] p)"

text \<open>\<^verbatim>\<open>process.on('unhandledRejection', (reason) => { console.error(...); process.exit(1); })\<close>\<close>

definition on_unhandledRejection :: "jsval \<Rightarrow> process \<Rightarrow> process" where
  "on_unhandledRejection reason p =
     process_exit 1 (log_error [Lit ''Unhandled Promise Rejection:'', Val reason] p)"

text \<open>What escapes to the top level of the process, and the listener it reaches.\<close>

datatype top_level_event = UncaughtException jsval | UnhandledRejection jsval

fun emit :: "top_level_event \<Rightarrow> process \<Rightarrow> process" where
  "emit (UncaughtException error) p = on_uncaughtException error p"
| "emit (UnhandledRejection reason) p = on_unhandledRejection reason p"


section \<open>Registration bootstrap (tools/index.ts)\<close>

text \<open>
  \<^verbatim>\<open>registryTools(server)\<close> walks the array \<^verbatim>\<open>allToolFunctions\<close> with \<^verbatim>\<open>forEach\<close>. An entry
  is either a function, called as \<^verbatim>\<open>registryFn(server)\<close>, or any other value. The call
  mutates the server handle passed to it and, like every JavaScript call, may throw: its
  result is the server as the call leaves it and the thrown value, if there is one.
  Nothing in \<^verbatim>\<open>registryTools\<close> catches, so a throw leaves the loop and the function. The
  array is a parameter here; the server handle is any type \<open>'s\<close>.
\<close>

datatype 's entry = Fn "'s \<Rightarrow> 's \<times> jsval option" | NotFn jsval

definition not_a_function :: "jsval \<Rightarrow> jstext" where
  "not_a_function v = [Lit ''An imported tool is not a function:'', Val v]"

text \<open>The result: the thrown value if the loop was left by a throw, the server, the console.\<close>

fun forEach_registryFn :: "'s entry list \<Rightarrow> 's \<Rightarrow> process \<Rightarrow> jsval option \<times> 's \<times> process" where
  "forEach_registryFn [] s p = (None, s, p)"
| "forEach_registryFn (Fn registryFn # es) s p =
     (case registryFn s of
        (s', Some e) \<Rightarrow> (Some e, s', p)
      | (s', None) \<Rightarrow> forEach_registryFn es s' p)"
| "forEach_registryFn (NotFn v # es) s p =
     forEach_registryFn es s (log_error (not_a_function v) p)"

definition registryTools :: "'s entry list \<Rightarrow> 's \<Rightarrow> process \<Rightarrow> jsval option \<times> 's \<times> process" where
  "registryTools allToolFunctions s p =
     (case forEach_registryFn allToolFunctions s p of
        (Some e, s', p') \<Rightarrow> (Some e, s', p')
      | (None, s', p') \<Rightarrow>
          (None, s',
           log_info [Num (real (length allToolFunctions)), Lit '' tools have been registered.''] p'))"

text \<open>
  What the claim describes, in its own words: the function entries, each called once, in
  order, on the server the previous one left (stopping at a throw), and the entries that
  are not functions.
\<close>

fun functions_of :: "'s entry list \<Rightarrow> ('s \<Rightarrow> 's \<times> jsval option) list" where
  "functions_of [] = []"
| "functions_of (Fn f # es) = f # functions_of es"
| "functions_of (NotFn v # es) = functions_of es"

fun non_functions_of :: "'s entry list \<Rightarrow> jsval list" where
  "non_functions_of [] = []"
| "non_functions_of (Fn f # es) = non_functions_of es"
| "non_functions_of (NotFn v # es) = v # non_functions_of es"

fun call_each_once :: "('s \<Rightarrow> 's \<times> jsval option) list \<Rightarrow> 's \<Rightarrow> 's \<times> jsval option" where
  "call_each_once [] s = (s, None)"
| "call_each_once (f # fs) s =
     (case f s of (s', Some e) \<Rightarrow> (s', Some e) | (s', None) \<Rightarrow> call_each_once fs s')"

text \<open>
  A server handle that only records the \<^verbatim>\<open>server.registerTool(name, ...)\<close> calls it
  receives, in order; a registration function that makes one such call; one that throws
  at once; and one that makes its call and then throws.
\<close>

type_synonym registrations = "string list"

definition registerTool :: "string \<Rightarrow> registrations \<Rightarrow> registrations" where
  "registerTool name s = s @ [name]"

definition registers :: "string \<Rightarrow> registrations entry" where
  "registers name = Fn (\<lambda>s. (registerTool name s, None))"

definition throws :: "jsval \<Rightarrow> registrations entry" where
  "throws e = Fn (\<lambda>s. (s, Some e))"

definition registers_then_throws :: "string \<Rightarrow> jsval \<Rightarrow> registrations entry" where
  "registers_then_throws name e = Fn (\<lambda>s. (registerTool name s, Some e))"

definition process0 :: process where
  "process0 = \<lparr>status = Running, console_error = [], console_log = []\<rparr>"


section \<open>get-system-info\<close>






text \<open>
  The arguments of an invocation, as the handler receives them: an object, field by field.
\<close>

type_synonym arguments = "(string \<times> jsval) list"













section \<open>watch-file-changes\<close>

text \<open>
  The module keeps \<^verbatim>\<open>activeWatchers\<close>, a \<^verbatim>\<open>Map\<close> from normalized path to the
  \<^verbatim>\<open>FSWatcher\<close> that \<^verbatim>\<open>fs.watch\<close> returned. The state also lists the watchers that
  \<^verbatim>\<open>fs.watch\<close> has opened and \<^verbatim>\<open>watcher.close()\<close> has not closed, and the lines
  written by \<^verbatim>\<open>log\<close>.
\<close>

record watcher =
  watched_path :: string
  watch_recursive :: "bool option"
  on_change_command :: string

record watch_state =
  activeWatchers :: "string \<rightharpoonup> watcher"
  open_watchers :: "watcher list"
  watch_log :: "jstext list"

text \<open>
  What the handler asks of its surroundings: \<^verbatim>\<open>path.resolve\<close>, \<^verbatim>\<open>fs.existsSync\<close>, and
  whether \<^verbatim>\<open>fs.watch\<close> throws on a path (\<open>Some e\<close>) or returns a watcher.
\<close>

record watch_env =
  path_resolve :: "string \<Rightarrow> string"
  existsSync :: "string \<Rightarrow> bool"
  fs_watch_throws :: "string \<Rightarrow> jsval option"

record watch_params =
  action :: string
  target_path :: string
  command :: "string option"
  recursive :: "bool option"

text \<open>\<^verbatim>\<open>!command\<close> for an optional string: absent or empty.\<close>

fun falsy_string :: "string option \<Rightarrow> bool" where
  "falsy_string None = True"
| "falsy_string (Some s) = (s = [])"

definition log_watch :: "jstext \<Rightarrow> watch_state \<Rightarrow> watch_state" where
  "log_watch m st = st\<lparr>watch_log := watch_log st @ [Lit ''[watch-file-changes] '' # m]\<rparr>"

definition watchFileChanges_handler ::
  "watch_env \<Rightarrow> watch_params \<Rightarrow> watch_state \<Rightarrow> outcome settled \<times> watch_state" where
  "watchFileChanges_handler env params st =
     (let normalizedPath = path_resolve env (target_path params) in
      if action params = ''start'' then
        if falsy_string (command params) then
          (Resolved (failure [Lit ''Error: A command must be provided to start watching.'']), st)
        else if activeWatchers st normalizedPath \<noteq> None then
          (Resolved (failure [Lit ''Already watching path: '', Lit normalizedPath,
                              Lit ''. Stop it first.'']), st)
        else if \<not> existsSync env normalizedPath then
          (Resolved (failure [Lit ''Error: Path does not exist: '', Lit normalizedPath]), st)
        else
          (case fs_watch_throws env normalizedPath of
             Some error \<Rightarrow>
               (Resolved (failure (Lit ''Failed to start watcher: '' # message error)), st)
           | None \<Rightarrow>
               (let w = \<lparr>watched_path = normalizedPath, watch_recursive = recursive params,
                         on_change_command = the (command params)\<rparr>
                in (Resolved (success [Lit ''Started watching for changes in '',
                                       Lit normalizedPath, Lit ''.'']),
                    log_watch [Lit ''Started watching '', Lit normalizedPath]
                      (st\<lparr>activeWatchers := (activeWatchers st)(normalizedPath \<mapsto> w),
                          open_watchers := open_watchers st @ [w]\<rparr>))))
      else if action params = ''stop'' then
        (case activeWatchers st normalizedPath of
           None \<Rightarrow>
             (Resolved (failure [Lit ''No active watcher found for path: '', Lit normalizedPath]), st)
         | Some w \<Rightarrow>
             (Resolved (success [Lit ''Stopped watching for changes in '',
                                 Lit normalizedPath, Lit ''.'']),
              log_watch [Lit ''Stopped watching '', Lit normalizedPath]
                (st\<lparr>activeWatchers := (activeWatchers st)(normalizedPath := None),
                    open_watchers := removeAll w (open_watchers st)\<rparr>)))
      else (Resolved (failure [Lit ''Invalid action specified.'']), st))"

text \<open>
  The invariant of the module: the open watchers are on pairwise different paths, and each
  is the entry of \<^verbatim>\<open>activeWatchers\<close> under its own path.
\<close>

definition one_watcher_per_path :: "watch_state \<Rightarrow> bool" where
  "one_watcher_per_path st =
     (distinct (map watched_path (open_watchers st)) \<and>
      list_all (\<lambda>w. activeWatchers st (watched_path w) = Some w) (open_watchers st))"

definition watch_env_example :: watch_env where
  "watch_env_example =
     \<lparr>path_resolve = (\<lambda>p. ''/work/'' @ p), existsSync = (\<lambda>p. True),
      fs_watch_throws = (\<lambda>p. None)\<rparr>"

definition watcher_example :: watcher where
  "watcher_example =
     \<lparr>watched_path = ''/work/src'', watch_recursive = Some False, on_change_command = ''make''\<rparr>"

definition watch_state_example :: watch_state where
  "watch_state_example =
     \<lparr>activeWatchers = [''/work/src'' \<mapsto> watcher_example],
      open_watchers = [watcher_example], watch_log = []\<rparr>"


section \<open>Strings and arrays of the JavaScript library\<close>

text \<open>Decimal digits of a non-negative and of any integer, as a template literal prints them.\<close>

fun show_nat :: "nat \<Rightarrow> string" where
  "show_nat n =
     (if n < 10 then [''0123456789'' ! n]
      else show_nat (n div 10) @ [''0123456789'' ! (n mod 10)])"

declare show_nat.simps [simp del]

definition show_int :: "int \<Rightarrow> string" where
  "show_int i = (if i < 0 then ''-'' @ show_nat (nat (- i)) else show_nat (nat i))"

text \<open>\<^verbatim>\<open>buffer.toString('hex')\<close>: two lower-case hexadecimal digits for each byte.\<close>

definition hex_byte :: "char \<Rightarrow> string" where
  "hex_byte c =
     [''0123456789abcdef'' ! (of_char c div 16), ''0123456789abcdef'' ! (of_char c mod 16)]"

definition toString_hex :: "string \<Rightarrow> string" where
  "toString_hex bytes = concat (map hex_byte bytes)"

text \<open>\<^verbatim>\<open>s.split(' ')\<close>: the pieces between occurrences of the separator, empty ones included.\<close>

fun split_on :: "char \<Rightarrow> string \<Rightarrow> string list" where
  "split_on sep [] = [[]]"
| "split_on sep (c # cs) =
     (if c = sep then [] # split_on sep cs
      else (case split_on sep cs of [] \<Rightarrow> [[c]] | l # ls \<Rightarrow> (c # l) # ls))"

text \<open>\<^verbatim>\<open>s.split(/\r?\n/)\<close>: lines end at a line feed, which a carriage return may precede.\<close>

fun split_lines :: "string \<Rightarrow> string list" where
  "split_lines [] = [[]]"
| "split_lines [c] = (if c = CHR 0x0A then [[], []] else [[c]])"
| "split_lines (c # d # cs) =
     (if c = CHR 0x0A then [] # split_lines (d # cs)
      else if c = CHR 0x0D \<and> d = CHR 0x0A then [] # split_lines cs
      else (case split_lines (d # cs) of [] \<Rightarrow> [[c]] | l # ls \<Rightarrow> (c # l) # ls))"

text \<open>\<^verbatim>\<open>lines.join('\n')\<close>.\<close>

fun join_lines :: "string list \<Rightarrow> string" where
  "join_lines [] = []"
| "join_lines [l] = l"
| "join_lines (l # ls) = l @ [CHR 0x0A] @ join_lines ls"

text \<open>
  \<^verbatim>\<open>xs.slice(start, end)\<close>: a negative index counts from the end, and both are clamped to
  the array.
\<close>

definition slice_index :: "nat \<Rightarrow> int \<Rightarrow> nat" where
  "slice_index len i = (if i < 0 then nat (max (int len + i) 0) else min (nat i) len)"

definition slice :: "'a list \<Rightarrow> int \<Rightarrow> int \<Rightarrow> 'a list" where
  "slice xs start stop =
     (let k = slice_index (length xs) start; final = slice_index (length xs) stop
      in take (final - k) (drop k xs))"

text \<open>
  \<^verbatim>\<open>s.trim()\<close> on a text: white space goes from both ends. A number and a stringified
  value neither start nor end with white space.
\<close>

definition is_space :: "char \<Rightarrow> bool" where
  "is_space c = (c \<in> set [CHR '' '', CHR 0x09, CHR 0x0A, CHR 0x0B, CHR 0x0C, CHR 0x0D])"

fun trimStart :: "jstext \<Rightarrow> jstext" where
  "trimStart [] = []"
| "trimStart (Lit s # ps) =
     (case dropWhile is_space s of [] \<Rightarrow> trimStart ps | c # cs \<Rightarrow> Lit (c # cs) # ps)"
| "trimStart (p # ps) = p # ps"

fun rev_piece :: "piece \<Rightarrow> piece" where
  "rev_piece (Lit s) = Lit (rev s)"
| "rev_piece p = p"

definition trim :: "jstext \<Rightarrow> jstext" where
  "trim t = trimStart (map rev_piece (rev (trimStart (map rev_piece (rev t)))))"

text \<open>
  The value of a digit in a radix up to 16, and of a string of digits.
\<close>

definition digit_value :: "char \<Rightarrow> nat option" where
  "digit_value c =
     (let n = (of_char c :: nat) in
      if 48 \<le> n \<and> n \<le> 57 then Some (n - 48)
      else if 97 \<le> n \<and> n \<le> 102 then Some (n - 87)
      else if 65 \<le> n \<and> n \<le> 70 then Some (n - 55)
      else None)"

definition is_digit_of :: "nat \<Rightarrow> char \<Rightarrow> bool" where
  "is_digit_of radix c = (case digit_value c of None \<Rightarrow> False | Some v \<Rightarrow> v < radix)"

definition digits_value :: "nat \<Rightarrow> string \<Rightarrow> nat" where
  "digits_value radix ds = foldl (\<lambda>acc c. acc * radix + the (digit_value c)) 0 ds"

text \<open>
  A plain object (\<^verbatim>\<open>{}\<close>) is kept as its own properties in creation order.
  \<^verbatim>\<open>obj[key] = v\<close> changes the property if the object has it and creates it last
  otherwise; only the key \<^verbatim>\<open>__proto__\<close> reaches the accessor inherited from
  \<^verbatim>\<open>Object.prototype\<close> instead, and no own property comes of it.
\<close>

fun define_property :: "string \<Rightarrow> jsval \<Rightarrow> (string \<times> jsval) list \<Rightarrow> (string \<times> jsval) list" where
  "define_property k v [] = [(k, v)]"
| "define_property k v ((k', v') # kvs) =
     (if k = k' then (k, v) # kvs else (k', v') # define_property k v kvs)"

definition set_property :: "string \<Rightarrow> jsval \<Rightarrow> (string \<times> jsval) list \<Rightarrow> (string \<times> jsval) list" where
  "set_property k v kvs = (if k = ''__proto__'' then kvs else define_property k v kvs)"

text \<open>
  \<^verbatim>\<open>JSON.stringify\<close> lists the own properties of a plain object with the array indices
  first (the decimal numerals of 0 to 4294967294, without leading zeros) in ascending
  numeric order, then the other keys in creation order.
\<close>

definition is_array_index :: "string \<Rightarrow> bool" where
  "is_array_index k =
     (k \<noteq> [] \<and> list_all (is_digit_of 10) k \<and> (k = ''0'' \<or> take 1 k \<noteq> ''0'')
      \<and> digits_value 10 k \<le> 4294967294)"

definition own_property_order :: "(string \<times> jsval) list \<Rightarrow> (string \<times> jsval) list" where
  "own_property_order kvs =
     sort_key (\<lambda>kv. digits_value 10 (fst kv)) (filter (\<lambda>kv. is_array_index (fst kv)) kvs)
     @ filter (\<lambda>kv. \<not> is_array_index (fst kv)) kvs"

text \<open>Truthiness of an optional boolean and of an optional string.\<close>

fun truthy :: "bool option \<Rightarrow> bool" where
  "truthy (Some b) = b"
| "truthy None = False"


section \<open>count-files\<close>

text \<open>
  The file system as the tool reads it. A node is what \<^verbatim>\<open>readdir(..., {withFileTypes: true})\<close>
  says it is, what \<^verbatim>\<open>fs.stat\<close> returns for it or throws, whether \<^verbatim>\<open>fs.readdir\<close> on it throws,
  and its named entries.
\<close>

datatype dirent_kind = IsFile | IsDirectory | IsOther

record stats =
  stat_size :: nat
  stat_mtime :: real

datatype fs_node =
  Node (dirent: dirent_kind) (stat_result: "jsval + stats") (readdir_error: "jsval option")
       (entries: "(string \<times> fs_node) list")

datatype details_type = TypeFile | TypeDirectory

record file_details =
  details_path :: string
  details_type :: details_type
  details_size :: nat
  modified_date :: real

text \<open>
  Outside the file system the tool reads the home directory, \<^verbatim>\<open>path.join\<close>, the clock in
  milliseconds, and \<^verbatim>\<open>new RegExp(pattern)\<close>, which throws on a malformed pattern and
  otherwise gives a test on names. \<open>lookup_path\<close> is \<open>None\<close> where \<^verbatim>\<open>fs.pathExists\<close> is false.
\<close>

record count_env =
  homedir :: string
  path_join :: "string \<Rightarrow> string \<Rightarrow> string"
  now :: real
  new_RegExp :: "string \<Rightarrow> jsval + (string \<Rightarrow> bool)"
  lookup_path :: "string \<Rightarrow> fs_node option"

record count_params =
  folderPath :: "string option"
  count_files :: "bool option"
  count_folders :: "bool option"
  recursive' :: "bool option"
  pattern :: "string option"
  max_depth :: "real option"
  min_size_kb :: "real option"
  max_size_kb :: "real option"
  modified_since_days :: "real option"
  includeHidden :: "bool option"

text \<open>
  One iteration of the loop from the \<^verbatim>\<open>try\<close> on: what it appends to \<^verbatim>\<open>results\<close>.
  \<open>sub\<close> is the outcome of the recursive call on the item, used only where the source
  makes that call; a throw from it, or from \<^verbatim>\<open>fs.stat\<close>, is caught here (and reported by
  \<^verbatim>\<open>console.warn\<close>, which the model does not keep).
\<close>

definition try_item ::
  "count_env \<Rightarrow> count_params \<Rightarrow> string \<Rightarrow> nat \<Rightarrow> fs_node \<Rightarrow> (jsval + file_details list)
   \<Rightarrow> file_details list" where
  "try_item env params itemPath currentDepth item sub =
     (case stat_result item of
        Inl err \<Rightarrow> []
      | Inr stats \<Rightarrow>
          if (case modified_since_days params of
                None \<Rightarrow> False
              | Some days \<Rightarrow> stat_mtime stats < now env - days * 86400000) then []
          else if dirent item = IsDirectory then
            (if truthy (count_folders params) then
               [\<lparr>details_path = itemPath, details_type = TypeDirectory,
                 details_size = stat_size stats, modified_date = stat_mtime stats\<rparr>]
             else []) @
            (if truthy (recursive' params) \<and>
                (case max_depth params of None \<Rightarrow> True | Some d \<Rightarrow> real currentDepth < d) then
               (case sub of Inl err \<Rightarrow> [] | Inr found \<Rightarrow> found)
             else [])
          else if dirent item = IsFile then
            (if (case min_size_kb params of
                   None \<Rightarrow> False | Some kb \<Rightarrow> real (stat_size stats) < kb * 1024) then []
             else if (case max_size_kb params of
                   None \<Rightarrow> False | Some kb \<Rightarrow> real (stat_size stats) > kb * 1024) then []
             else if truthy (count_files params) then
               [\<lparr>details_path = itemPath, details_type = TypeFile,
                 details_size = stat_size stats, modified_date = stat_mtime stats\<rparr>]
             else [])
          else [])"

text \<open>
  \<^verbatim>\<open>params.pattern && !new RegExp(params.pattern).test(item.name)\<close>, outside the
  \<^verbatim>\<open>try\<close>: \<open>Inl\<close> when the constructor throws, else whether the item is skipped.
\<close>

definition pattern_rejects :: "count_env \<Rightarrow> count_params \<Rightarrow> string \<Rightarrow> jsval + bool" where
  "pattern_rejects env params name =
     (case pattern params of
        None \<Rightarrow> Inr False
      | Some pat \<Rightarrow>
          if pat = [] then Inr False
          else (case new_RegExp env pat of Inl err \<Rightarrow> Inl err | Inr test \<Rightarrow> Inr (\<not> test name)))"

definition starts_with_dot :: "string \<Rightarrow> bool" where
  "starts_with_dot name = (case name of [] \<Rightarrow> False | c # cs \<Rightarrow> c = CHR ''.'')"

fun listFilesRecursiveForCount ::
  "count_env \<Rightarrow> count_params \<Rightarrow> string \<Rightarrow> fs_node \<Rightarrow> nat \<Rightarrow> jsval + file_details list"
and for_items ::
  "count_env \<Rightarrow> count_params \<Rightarrow> string \<Rightarrow> nat \<Rightarrow> (string \<times> fs_node) list
   \<Rightarrow> jsval + file_details list" where
  "listFilesRecursiveForCount env params dir (Node k st rerr items) currentDepth =
     (case rerr of
        Some err \<Rightarrow> Inr []
      | None \<Rightarrow> for_items env params dir currentDepth items)"
| "for_items env params dir currentDepth [] = Inr []"
| "for_items env params dir currentDepth ((name, item) # rest) =
     (let itemPath = path_join env dir name in
      if \<not> truthy (includeHidden params) \<and> starts_with_dot name then
        for_items env params dir currentDepth rest
      else
        (case pattern_rejects env params name of
           Inl err \<Rightarrow> Inl err
         | Inr True \<Rightarrow> for_items env params dir currentDepth rest
         | Inr False \<Rightarrow>
             (let pushed = try_item env params itemPath currentDepth item
                             (listFilesRecursiveForCount env params itemPath item (currentDepth + 1))
              in case for_items env params dir currentDepth rest of
                   Inl err \<Rightarrow> Inl err
                 | Inr others \<Rightarrow> Inr (pushed @ others))))"

definition backslash_n :: string where
  "backslash_n = [CHR 0x5C, CHR ''n'']"

definition countFiles_handler :: "count_env \<Rightarrow> count_params \<Rightarrow> outcome settled" where
  "countFiles_handler env params =
     (let targetPath =
            (case folderPath params of
               None \<Rightarrow> path_join env (homedir env) ''Desktop''
             | Some p \<Rightarrow> if p = [] then path_join env (homedir env) ''Desktop'' else p)
      in case lookup_path env targetPath of
           None \<Rightarrow> Resolved (failure [Lit ''Error: Path does not exist: '', Lit targetPath])
         | Some target \<Rightarrow>
             if \<not> truthy (count_files params) \<and> \<not> truthy (count_folders params) then
               Resolved (failure [Lit ''Error: You must choose to count files, folders, or both.''])
             else
               (case listFilesRecursiveForCount env params targetPath target 0 of
                  Inl error \<Rightarrow>
                    Resolved (failure (Lit ''An unexpected error occurred: '' # errorMessage error))
                | Inr items \<Rightarrow>
                    (let fileCount = length (filter (\<lambda>i. details_type i = TypeFile) items);
                         folderCount = length (filter (\<lambda>i. details_type i = TypeDirectory) items);
                         resultText =
                           [Lit (''Analysis of '' @ [CHR 0x27]), Lit targetPath,
                            Lit ([CHR 0x27] @ '':'' @ backslash_n)]
                           @ (if truthy (count_files params)
                              then [Lit ''- Files found: '', Num (real fileCount), Lit backslash_n]
                              else [])
                           @ (if truthy (count_folders params)
                              then [Lit ''- Folders found: '', Num (real folderCount), Lit backslash_n]
                              else [])
                     in Resolved (success (trim resultText)))))"


section \<open>read-file\<close>

text \<open>
  A path that exists is either a file whose bytes can be read, or something on which
  \<^verbatim>\<open>fs.stat\<close>, \<^verbatim>\<open>fs.open\<close>, \<^verbatim>\<open>fs.read\<close> or \<^verbatim>\<open>fs.readFile\<close> throws an \<^verbatim>\<open>Error\<close> with the
  given message. \<open>read_lookup\<close> is \<open>None\<close> where \<^verbatim>\<open>fs.pathExists\<close> is false. Decoding bytes
  in a named encoding, and allocating a buffer of a requested size, may throw too.
  \<open>operation_duration\<close> is the time the whole read takes, \<open>None\<close> if it never ends.
\<close>

datatype file_node = Bytes string | Failing string

record read_env =
  read_lookup :: "string \<Rightarrow> file_node option"
  decode :: "string \<Rightarrow> string \<Rightarrow> string + string"
  Buffer_alloc_throws :: "int \<Rightarrow> string option"
  operation_duration :: "real option"

record read_params =
  filePaths :: string
  startLine :: "int option"
  endLine :: "int option"
  encoding :: string
  binary_mode :: bool
  max_bytes :: "int option"
  timeout :: "real option"

text \<open>Truthiness of an optional number: present and not zero.\<close>

fun truthy_int :: "int option \<Rightarrow> bool" where
  "truthy_int (Some i) = (i \<noteq> 0)"
| "truthy_int None = False"

text \<open>
  The \<^verbatim>\<open>try\<close> block of one file whose bytes can be read: \<open>Inl\<close> the message of what it
  throws, \<open>Inr\<close> the string it stores under the path.
\<close>

definition read_bytes :: "read_env \<Rightarrow> read_params \<Rightarrow> string \<Rightarrow> string + string" where
  "read_bytes env params bytes =
     (if binary_mode params then
        (let bytes_to_read =
               (if truthy_int (max_bytes params)
                then min (the (max_bytes params)) (int (length bytes))
                else int (length bytes))
         in case Buffer_alloc_throws env bytes_to_read of
              Some m \<Rightarrow> Inl m
            | None \<Rightarrow>
                (let buffer = take (nat bytes_to_read) bytes
                 in Inr (''Read '' @ show_nat (length buffer) @ '' bytes (hex): ''
                         @ toString_hex buffer)))
      else
        (case (if truthy_int (max_bytes params) then
                 (case Buffer_alloc_throws env (the (max_bytes params)) of
                    Some m \<Rightarrow> Inl m
                  | None \<Rightarrow>
                      (let bytesRead = min (nat (the (max_bytes params))) (length bytes)
                       in decode env (encoding params) (take bytesRead bytes)))
               else decode env (encoding params) bytes) of
           Inl m \<Rightarrow> Inl m
         | Inr fileContent \<Rightarrow>
             (let lines = split_lines fileContent in
              if truthy_int (startLine params) \<or> truthy_int (endLine params) then
                (let effectiveStartLine =
                       (if truthy_int (startLine params) then the (startLine params) - 1 else 0);
                     effectiveEndLine =
                       (if truthy_int (endLine params) then the (endLine params)
                        else int (length lines))
                 in if effectiveStartLine \<ge> int (length lines) then
                      Inr (''Error: startLine '' @ show_int (the (startLine params))
                           @ '' is out of bounds. File only has '' @ show_nat (length lines)
                           @ '' lines.'')
                    else Inr (join_lines (slice lines effectiveStartLine effectiveEndLine)))
              else Inr (join_lines lines))))"

text \<open>One iteration of the loop over the paths: the string stored under \<open>filePath\<close>.\<close>

definition read_one :: "read_env \<Rightarrow> read_params \<Rightarrow> string \<Rightarrow> string" where
  "read_one env params filePath =
     (case read_lookup env filePath of
        None \<Rightarrow> ''Error: File not found at path: '' @ filePath
      | Some (Failing m) \<Rightarrow> ''Error reading file: '' @ m
      | Some (Bytes bytes) \<Rightarrow>
          (case read_bytes env params bytes of
             Inl m \<Rightarrow> ''Error reading file: '' @ m
           | Inr s \<Rightarrow> s))"

definition read_operation :: "read_env \<Rightarrow> read_params \<Rightarrow> string list \<Rightarrow> (string \<times> jsval) list" where
  "read_operation env params paths =
     foldl (\<lambda>results filePath. set_property filePath (JStr (read_one env params filePath)) results)
       [] paths"

definition readFile_handler :: "read_env \<Rightarrow> read_params \<Rightarrow> outcome settled" where
  "readFile_handler env params =
     (let timeoutMs = normalizeTimeout1 (timeout params);
          paths = filter (\<lambda>p. p \<noteq> []) (split_on CHR '' '' (filePaths params));
          operation = \<lparr>settles_after = operation_duration env,
                       settles_to = Resolved (read_operation env params paths)\<rparr>
      in case withTimeout operation timeoutMs
                [Lit ''File reading operation timed out after '', Num timeoutMs, Lit ''ms''] of
           Inl (Resolved operationResults) \<Rightarrow>
             Resolved (success [Stringified (JObj (own_property_order operationResults))])
         | Inl (Rejected error) \<Rightarrow>
             Resolved (failure (Lit ''An unexpected error occurred: '' # errorMessage error))
         | Inr timeoutMessage \<Rightarrow>
             Resolved (failure (Lit ''An unexpected error occurred: '' # timeoutMessage)))"

definition read_env_example :: read_env where
  "read_env_example =
     \<lparr>read_lookup = (\<lambda>p. if p = ''notes.txt'' then Some (Bytes ''one'') else None),
      decode = (\<lambda>enc bytes. Inr bytes),
      Buffer_alloc_throws = (\<lambda>n. None),
      operation_duration = Some 5\<rparr>"

definition read_params_example :: read_params where
  "read_params_example =
     \<lparr>filePaths = ''missing.txt'', startLine = None, endLine = None, encoding = ''utf-8'',
      binary_mode = False, max_bytes = None, timeout = None\<rparr>"

definition count_env_example :: count_env where
  "count_env_example =
     \<lparr>homedir = ''/home/u'', path_join = (\<lambda>a b. a @ ''/'' @ b), now = 0,
      new_RegExp = (\<lambda>p. Inr (\<lambda>name. True)),
      lookup_path = (\<lambda>p. if p = ''/data'' then Some (Node IsDirectory (Inr \<lparr>stat_size = 0, stat_mtime = 0\<rparr>) None
                                                        [(''a.txt'', Node IsFile (Inr \<lparr>stat_size = 3, stat_mtime = 0\<rparr>) None [])])
                         else None)\<rparr>"

definition count_params_example :: count_params where
  "count_params_example =
     \<lparr>folderPath = Some ''/nowhere'', count_files = Some True, count_folders = Some False,
      recursive' = Some False, pattern = None, max_depth = None, min_size_kb = None,
      max_size_kb = None, modified_since_days = None, includeHidden = None\<rparr>"


section \<open>todo-list-tool\<close>

record Task =
  id' :: int
  text' :: string
  priority' :: string
  due_date' :: "string option"
  completed :: bool

record Project =
  name :: string
  tasks :: "Task list"

record TodoData =
  projects :: "Project list"
  current_project :: "string option"

text \<open>
  The file \<^verbatim>\<open>todo-list.json\<close>: absent; present with contents that \<^verbatim>\<open>fs.readFile\<close> or
  \<^verbatim>\<open>JSON.parse\<close> throws on; or present with the JSON of a \<^verbatim>\<open>TodoData\<close>, as
  \<^verbatim>\<open>writeTodoData\<close> leaves it. \<open>writeFile_throws\<close> is what \<^verbatim>\<open>fs.writeFile\<close> throws, if it does.
\<close>

datatype todo_file = Absent | Unparseable jsval | Parsed TodoData

record todo_fs =
  todo_file :: todo_file
  writeFile_throws :: "jsval option"

definition readTodoData :: "todo_fs \<Rightarrow> jsval + TodoData" where
  "readTodoData fs =
     (case todo_file fs of
        Absent \<Rightarrow> Inr \<lparr>projects = [], current_project = None\<rparr>
      | Unparseable e \<Rightarrow> Inl e
      | Parsed data \<Rightarrow> Inr data)"

definition writeTodoData :: "todo_fs \<Rightarrow> TodoData \<Rightarrow> jsval + todo_fs" where
  "writeTodoData fs data =
     (case writeFile_throws fs of
        Some e \<Rightarrow> Inl e
      | None \<Rightarrow> Inr (fs\<lparr>todo_file := Parsed data\<rparr>))"

record todo_params =
  operation :: string
  project_name :: "string option"
  task :: "string option"
  task_id :: "string option"
  priority :: "string option"
  due_date :: "string option"

text \<open>
  \<^verbatim>\<open>parseInt(s)\<close> with no radix: leading white space, a sign, then hexadecimal digits after
  \<^verbatim>\<open>0x\<close> or else decimal digits, as many as there are; \<open>None\<close> is \<^verbatim>\<open>NaN\<close>.
\<close>

definition parse_digits :: "nat \<Rightarrow> string \<Rightarrow> nat option" where
  "parse_digits radix s =
     (case takeWhile (is_digit_of radix) s of
        [] \<Rightarrow> None
      | d # ds \<Rightarrow> Some (digits_value radix (d # ds)))"

definition parse_unsigned :: "string \<Rightarrow> nat option" where
  "parse_unsigned s =
     (case s of
        c # x # rest \<Rightarrow>
          if c = CHR ''0'' \<and> (x = CHR ''x'' \<or> x = CHR ''X'') then parse_digits 16 rest
          else parse_digits 10 s
      | _ \<Rightarrow> parse_digits 10 s)"

definition parseInt :: "string \<Rightarrow> int option" where
  "parseInt s =
     (case dropWhile is_space s of
        [] \<Rightarrow> None
      | c # rest \<Rightarrow>
          if c = CHR ''-'' then map_option (\<lambda>n. - int n) (parse_unsigned rest)
          else if c = CHR ''+'' then map_option int (parse_unsigned rest)
          else map_option int (parse_unsigned (c # rest)))"

text \<open>\<^verbatim>\<open>t.id === parseInt(task_id)\<close>: never true of \<^verbatim>\<open>NaN\<close>.\<close>

definition id_is :: "string \<Rightarrow> Task \<Rightarrow> bool" where
  "id_is task_id_string t = (parseInt task_id_string = Some (id' t))"

text \<open>The first element that satisfies a test, changed in place.\<close>

fun update_first :: "('a \<Rightarrow> bool) \<Rightarrow> ('a \<Rightarrow> 'a) \<Rightarrow> 'a list \<Rightarrow> 'a list" where
  "update_first P f [] = []"
| "update_first P f (x # xs) = (if P x then f x # xs else x # update_first P f xs)"

definition task_json :: "Task \<Rightarrow> jsval" where
  "task_json t =
     JObj [(''id'', JNum (real_of_int (id' t))), (''text'', JStr (text' t)),
           (''priority'', JStr (priority' t)),
           (''due_date'', (case due_date' t of None \<Rightarrow> JUndefined | Some d \<Rightarrow> JStr d)),
           (''completed'', JBool (completed t))]"

text \<open>\<^verbatim>\<open>await writeTodoData(data); return { content: [...] }\<close> inside the \<^verbatim>\<open>try\<close> block.\<close>

definition todo_caught :: "jsval \<Rightarrow> outcome" where
  "todo_caught error = failure (Lit ''Error performing to-do list operation: '' # message error)"

definition write_and_return :: "todo_fs \<Rightarrow> TodoData \<Rightarrow> jstext \<Rightarrow> outcome settled \<times> todo_fs" where
  "write_and_return fs data t =
     (case writeTodoData fs data of
        Inl error \<Rightarrow> (Resolved (todo_caught error), fs)
      | Inr fs' \<Rightarrow> (Resolved (success t), fs'))"

definition quoted :: "string \<Rightarrow> string" where
  "quoted s = [CHR 0x27] @ s @ [CHR 0x27]"

text \<open>The \<^verbatim>\<open>try { switch (operation) ... } catch\<close> of the handler, on the data read.\<close>

definition todo_switch :: "todo_fs \<Rightarrow> todo_params \<Rightarrow> TodoData \<Rightarrow> outcome settled \<times> todo_fs" where
  "todo_switch fs params data =
     (let current = (\<lambda>p. Some (name p) = current_project data);
          no_project_selected = falsy_string (current_project data) in
      if operation params = ''create_project'' then
        (if falsy_string (project_name params) then
           (Resolved (failure [Lit (''Error: '' @ quoted ''project_name'' @ '' is required.'')]), fs)
         else if find (\<lambda>p. Some (name p) = project_name params) (projects data) \<noteq> None then
           (Resolved (failure [Lit (''Error: Project '' @ [CHR 0x27]), Lit (the (project_name params)),
                               Lit ([CHR 0x27] @ '' already exists.'')]), fs)
         else
           write_and_return fs
             (data\<lparr>projects := projects data @ [\<lparr>name = the (project_name params), tasks = []\<rparr>]\<rparr>)
             [Lit (''Project '' @ [CHR 0x27]), Lit (the (project_name params)),
              Lit ([CHR 0x27] @ '' created.'')])
      else if operation params = ''add_task'' then
        (if no_project_selected then
           (Resolved (failure [Lit (''Error: No project selected. Use '' @ quoted ''switch_project''
                                    @ '' first.'')]), fs)
         else if falsy_string (task params) then
           (Resolved (failure [Lit (''Error: '' @ quoted ''task'' @ '' is required.'')]), fs)
         else
           (case find current (projects data) of
              Some project \<Rightarrow>
                (let new_task = \<lparr>id' = int (length (tasks project)) + 1, text' = the (task params),
                                 priority' = (if falsy_string (priority params) then ''medium''
                                              else the (priority params)),
                                 due_date' = due_date params, completed = False\<rparr>
                 in write_and_return fs
                      (data\<lparr>projects := update_first current
                                 (\<lambda>p. p\<lparr>tasks := tasks p @ [new_task]\<rparr>) (projects data)\<rparr>)
                      [Lit (''Task added to project '' @ [CHR 0x27]), Lit (the (current_project data)),
                       Lit ([CHR 0x27] @ ''.'')])
            | None \<Rightarrow> (Resolved (failure [Lit ''Error: Current project not found.'']), fs)))
      else if operation params = ''remove_task'' then
        (if no_project_selected then
           (Resolved (failure [Lit ''Error: No project selected.'']), fs)
         else if falsy_string (task_id params) then
           (Resolved (failure [Lit (''Error: '' @ quoted ''task_id'' @ '' is required.'')]), fs)
         else
           (case find current (projects data) of
              Some project_to_remove_from \<Rightarrow>
                write_and_return fs
                  (data\<lparr>projects := update_first current
                             (\<lambda>p. p\<lparr>tasks := filter (\<lambda>t. \<not> id_is (the (task_id params)) t) (tasks p)\<rparr>)
                             (projects data)\<rparr>)
                  [Lit ''Task with ID '', Lit (the (task_id params)), Lit '' removed.'']
            | None \<Rightarrow> (Resolved (failure [Lit ''Error: Current project not found.'']), fs)))
      else if operation params = ''list_tasks'' then
        (if no_project_selected then
           (Resolved (failure [Lit ''Error: No project selected.'']), fs)
         else
           (case find current (projects data) of
              Some project_to_list \<Rightarrow>
                (Resolved (success [Stringified (JArr (map task_json (tasks project_to_list)))]), fs)
            | None \<Rightarrow> (Resolved (failure [Lit ''Error: Current project not found.'']), fs)))
      else if operation params = ''complete_task'' then
        (if no_project_selected then
           (Resolved (failure [Lit ''Error: No project selected.'']), fs)
         else if falsy_string (task_id params) then
           (Resolved (failure [Lit (''Error: '' @ quoted ''task_id'' @ '' is required.'')]), fs)
         else
           (case find current (projects data) of
              Some project_to_complete_in \<Rightarrow>
                (case find (id_is (the (task_id params))) (tasks project_to_complete_in) of
                   Some task_to_complete \<Rightarrow>
                     write_and_return fs
                       (data\<lparr>projects := update_first current
                                  (\<lambda>p. p\<lparr>tasks := update_first (id_is (the (task_id params)))
                                                     (\<lambda>t. t\<lparr>completed := True\<rparr>) (tasks p)\<rparr>)
                                  (projects data)\<rparr>)
                       [Lit ''Task with ID '', Lit (the (task_id params)), Lit '' marked as completed.'']
                 | None \<Rightarrow>
                     (Resolved (failure [Lit ''Error: Task with ID '', Lit (the (task_id params)),
                                         Lit '' not found.'']), fs))
            | None \<Rightarrow> (Resolved (failure [Lit ''Error: Current project not found.'']), fs)))
      else if operation params = ''list_projects'' then
        (Resolved (success [Stringified (JArr (map (\<lambda>p. JStr (name p)) (projects data)))]), fs)
      else if operation params = ''switch_project'' then
        (if falsy_string (project_name params) then
           (Resolved (failure [Lit (''Error: '' @ quoted ''project_name'' @ '' is required.'')]), fs)
         else if find (\<lambda>p. Some (name p) = project_name params) (projects data) = None then
           (Resolved (failure [Lit (''Error: Project '' @ [CHR 0x27]), Lit (the (project_name params)),
                               Lit ([CHR 0x27] @ '' not found.'')]), fs)
         else
           write_and_return fs (data\<lparr>current_project := project_name params\<rparr>)
             [Lit (''Switched to project '' @ [CHR 0x27]), Lit (the (project_name params)),
              Lit ([CHR 0x27] @ ''.'')])
      else
        (Resolved (failure [Lit (''Error: Unknown operation '' @ [CHR 0x27]), Lit (operation params),
                            Lit ([CHR 0x27] @ ''.'')]), fs))"

text \<open>
  The handler: \<^verbatim>\<open>let data = await readTodoData();\<close> stands before the \<^verbatim>\<open>try\<close>, so what
  \<^verbatim>\<open>readTodoData\<close> throws rejects the handler's promise.
\<close>

definition todoList_handler :: "todo_fs \<Rightarrow> todo_params \<Rightarrow> outcome settled \<times> todo_fs" where
  "todoList_handler fs params =
     (case readTodoData fs of
        Inl e \<Rightarrow> (Rejected e, fs)
      | Inr data \<Rightarrow> todo_switch fs params data)"

definition list_projects_params :: todo_params where
  "list_projects_params =
     \<lparr>operation = ''list_projects'', project_name = None, task = None, task_id = None,
      priority = None, due_date = None\<rparr>"

definition broken_todo_file :: todo_fs where
  "broken_todo_file =
     \<lparr>todo_file = Unparseable (JError ''Unexpected end of JSON input''), writeFile_throws = None\<rparr>"


section \<open>Schema validation and dispatch\<close>

text \<open>
  In the repository a tool hands its \<^verbatim>\<open>inputSchema\<close> and its handler to
  \<^verbatim>\<open>server.registerTool\<close>; the schema objects are built with the \<^verbatim>\<open>zod\<close> library, and the
  validation and the dispatch happen inside the protocol SDK's \<^verbatim>\<open>McpServer\<close>. Neither
  library is part of the sources. The validator and the dispatcher below are therefore
  written from sections 3, 4.2 and 4.3 of the specification; the schemas further down are
  the declarations of the source files.
\<close>

text \<open>
  Modelled from the spec: the field types of section 3 (string, number, optionally an
  integer and with a minimum and a maximum, boolean, enum of strings, array of strings,
  opaque binary). The validator that reads them is missing from the sources.
\<close>

datatype field_type =
    TString
  | TNumber (is_int: bool) (minimum: "real option") (maximum: "real option")
  | TBoolean
  | TEnum "string list"
  | TStringArray
  | TBinary

text \<open>
  Modelled from the spec: a field descriptor \<open>{type, required, default, constraints}\<close> of
  section 3, with the field's name; a schema lists the descriptors in declaration order.
  The validator that reads them is missing from the sources.
\<close>

record field =
  field_name :: string
  declared :: field_type
  required :: bool
  default_value :: "jsval option"

type_synonym schema = "field list"

text \<open>
  Modelled from the spec: the violated constraint of a structured validation failure
  (section 3, ValidationResult; section 7, ValidationError). The validator that produces
  it is missing from the sources.
\<close>

datatype violation = MissingRequired | WrongType | NotAnInteger | OutOfRange | NotInEnum

type_synonym validation_failure = "string \<times> violation"

text \<open>
  Modelled from the spec: the tests the type check and the range check of section 4.2
  use: a value is a string; a number is below a declared minimum, above a declared
  maximum, an integer. The validator that uses them is missing from the sources.
\<close>

definition is_JStr :: "jsval \<Rightarrow> bool" where
  "is_JStr v = (case v of JStr s \<Rightarrow> True | _ \<Rightarrow> False)"

definition below_minimum :: "real option \<Rightarrow> real \<Rightarrow> bool" where
  "below_minimum lo x = (case lo of None \<Rightarrow> False | Some l \<Rightarrow> x < l)"

definition above_maximum :: "real option \<Rightarrow> real \<Rightarrow> bool" where
  "above_maximum hi x = (case hi of None \<Rightarrow> False | Some h \<Rightarrow> h < x)"

definition is_integer :: "real \<Rightarrow> bool" where
  "is_integer x = (x = of_int \<lfloor>x\<rfloor>)"

text \<open>
  Modelled from the spec: steps 1 to 3 of section 4.2 for a field that is present: the
  value must be of the declared type, a number within its range, an enum value one of the
  members. The first check that fails is the one reported. This function of the validator
  is missing from the sources.
\<close>

fun coerce :: "field_type \<Rightarrow> jsval \<Rightarrow> violation + jsval" where
  "coerce TString v = (if is_JStr v then Inr v else Inl WrongType)"
| "coerce (TNumber i lo hi) (JNum x) =
     (if i \<and> \<not> is_integer x then Inl NotAnInteger
      else if below_minimum lo x \<or> above_maximum hi x then Inl OutOfRange
      else Inr (JNum x))"
| "coerce (TNumber i lo hi) v = Inl WrongType"
| "coerce TBoolean (JBool b) = Inr (JBool b)"
| "coerce TBoolean v = Inl WrongType"
| "coerce (TEnum members) (JStr s) = (if s \<in> set members then Inr (JStr s) else Inl NotInEnum)"
| "coerce (TEnum members) v = Inl WrongType"
| "coerce TStringArray (JArr vs) = (if list_all is_JStr vs then Inr (JArr vs) else Inl WrongType)"
| "coerce TStringArray v = Inl WrongType"
| "coerce TBinary v = Inr v"

text \<open>
  Modelled from the spec: step 1 of section 4.2 for one declared field: present, it is
  coerced; absent with a default, the default is substituted; absent and required, the
  failure is "missing required field"; absent otherwise, it stays absent. This function
  of the validator is missing from the sources.
\<close>

definition validate_field :: "field \<Rightarrow> arguments \<Rightarrow> validation_failure + (string \<times> jsval) option" where
  "validate_field f rawArguments =
     (case map_of rawArguments (field_name f) of
        Some v \<Rightarrow>
          (case coerce (declared f) v of
             Inl c \<Rightarrow> Inl (field_name f, c)
           | Inr v' \<Rightarrow> Inr (Some (field_name f, v')))
      | None \<Rightarrow>
          (case default_value f of
             Some d \<Rightarrow> Inr (Some (field_name f, d))
           | None \<Rightarrow> if required f then Inl (field_name f, MissingRequired) else Inr None))"

text \<open>
  Modelled from the spec: step 5 of section 4.2: the declared fields are checked in
  order and validation stops at the first violation. This function of the validator is
  missing from the sources.
\<close>

fun validate_fields :: "schema \<Rightarrow> arguments \<Rightarrow> validation_failure + arguments" where
  "validate_fields [] rawArguments = Inr []"
| "validate_fields (f # fs) rawArguments =
     (case validate_field f rawArguments of
        Inl e \<Rightarrow> Inl e
      | Inr r \<Rightarrow>
          (case validate_fields fs rawArguments of
             Inl e \<Rightarrow> Inl e
           | Inr rest \<Rightarrow> Inr (case r of None \<Rightarrow> rest | Some kv \<Rightarrow> kv # rest)))"

text \<open>
  Modelled from the spec: the validator of section 4.2: the typed and defaulted declared
  fields, followed (step 4) by the fields of the raw arguments that the schema does not
  declare, passed through. The validator is missing from the sources.
\<close>

definition validate :: "schema \<Rightarrow> arguments \<Rightarrow> validation_failure + arguments" where
  "validate s rawArguments =
     (case validate_fields s rawArguments of
        Inl e \<Rightarrow> Inl e
      | Inr typed \<Rightarrow>
          Inr (typed @ filter (\<lambda>kv. fst kv \<notin> set (map field_name s)) rawArguments))"

text \<open>
  Modelled from the spec: a ToolDefinition of section 3 without its name: schema and
  handler; the handler acts on a world \<open>'w\<close> and resolves or rejects. The registry type
  is missing from the sources.
\<close>

record 'w tool_definition =
  tool_schema :: schema
  tool_handler :: "arguments \<Rightarrow> 'w \<Rightarrow> outcome settled \<times> 'w"

type_synonym 'w registry = "(string \<times> 'w tool_definition) list"

text \<open>
  Modelled from the spec: \<open>register\<close> of section 4.1 inserts or overwrites the entry for
  the name. The registry is missing from the sources.
\<close>

definition register :: "string \<Rightarrow> 'w tool_definition \<Rightarrow> 'w registry \<Rightarrow> 'w registry" where
  "register n d reg = (n, d) # filter (\<lambda>e. fst e \<noteq> n) reg"

text \<open>
  Modelled from the spec: the text of a validation failure names the violated constraint
  and then the field (section 4.3: "describing the violated field/constraint"; section
  4.2: "missing required field: name"). The dispatcher is missing from the sources.
\<close>

definition describe :: "violation \<Rightarrow> string" where
  "describe c =
     (case c of
        MissingRequired \<Rightarrow> ''missing required field: ''
      | WrongType \<Rightarrow> ''wrong type for field: ''
      | NotAnInteger \<Rightarrow> ''not an integer: ''
      | OutOfRange \<Rightarrow> ''out of range: ''
      | NotInEnum \<Rightarrow> ''not a member of the enum: '')"

text \<open>
  Modelled from the spec: the dispatcher of section 4.3. An unknown tool and a validation
  failure give an error Outcome and invoke no handler; otherwise the handler is invoked
  with the validated arguments, and what it throws becomes an error Outcome with the
  thrown message. The result also lists the arguments of every handler invocation made.
  The dispatcher is missing from the sources.
\<close>

definition dispatch ::
  "'w registry \<Rightarrow> string \<Rightarrow> arguments \<Rightarrow> 'w \<Rightarrow> outcome \<times> arguments list \<times> 'w" where
  "dispatch reg toolName rawArguments w =
     (case map_of reg toolName of
        None \<Rightarrow> (failure [Lit ''Unknown tool: '', Lit toolName], [], w)
      | Some d \<Rightarrow>
          (case validate (tool_schema d) rawArguments of
             Inl (f, c) \<Rightarrow> (failure [Lit (describe c), Lit f], [], w)
           | Inr args \<Rightarrow>
               (case tool_handler d args w of
                  (Resolved out, w') \<Rightarrow> (out, [args], w')
                | (Rejected e, w') \<Rightarrow> (failure (message e), [args], w'))))"


section \<open>The schemas the tools declare\<close>

text \<open>
  A \<^verbatim>\<open>zod\<close> declaration read as a field descriptor: \<^verbatim>\<open>z.string()\<close>, \<^verbatim>\<open>z.boolean()\<close> and
  \<^verbatim>\<open>z.number()\<close> give the type, \<^verbatim>\<open>.int()\<close> and \<^verbatim>\<open>.min(n)\<close> its constraints,
  \<^verbatim>\<open>.optional()\<close> makes the field not required and \<^verbatim>\<open>.default(v)\<close> gives the default.
\<close>

definition z_field :: "string \<Rightarrow> field_type \<Rightarrow> field" where
  "z_field n t = \<lparr>field_name = n, declared = t, required = True, default_value = None\<rparr>"

definition optional :: "field \<Rightarrow> field" where
  "optional f = f\<lparr>required := False\<rparr>"

definition default' :: "jsval \<Rightarrow> field \<Rightarrow> field" where
  "default' v f = f\<lparr>default_value := Some v\<rparr>"

definition z_int_min :: "real \<Rightarrow> field_type" where
  "z_int_min n = TNumber True (Some n) None"

definition z_number :: field_type where
  "z_number = TNumber False None None"

text \<open>The \<^verbatim>\<open>inputSchema\<close> of count-files.\<close>

definition countFiles_inputSchema :: schema where
  "countFiles_inputSchema =
     [optional (z_field ''folderPath'' TString),
      default' (JBool True) (optional (z_field ''count_files'' TBoolean)),
      default' (JBool False) (optional (z_field ''count_folders'' TBoolean)),
      default' (JBool False) (optional (z_field ''recursive'' TBoolean)),
      optional (z_field ''pattern'' TString),
      optional (z_field ''max_depth'' (z_int_min 0)),
      optional (z_field ''min_size_kb'' (z_int_min 0)),
      optional (z_field ''max_size_kb'' (z_int_min 0)),
      optional (z_field ''modified_since_days'' (z_int_min 0))]"

text \<open>The \<^verbatim>\<open>inputSchema\<close> of read-file.\<close>

definition readFile_inputSchema :: schema where
  "readFile_inputSchema =
     [z_field ''filePaths'' TString,
      optional (z_field ''startLine'' (z_int_min 1)),
      optional (z_field ''endLine'' (z_int_min 1)),
      default' (JStr ''utf-8'') (optional (z_field ''encoding'' TString)),
      default' (JBool False) (optional (z_field ''binary_mode'' TBoolean)),
      optional (z_field ''max_bytes'' (z_int_min 1)),
      optional (z_field ''timeout'' z_number)]"

text \<open>The \<^verbatim>\<open>inputSchema\<close> of ping-tool: \<open>count\<close> and \<open>timeout\<close> are optional strings.\<close>

definition ping_inputSchema :: schema where
  "ping_inputSchema =
     [z_field ''target'' TString,
      optional (z_field ''count'' TString),
      optional (z_field ''timeout'' TString),
      optional (z_field ''output_path'' TString)]"

text \<open>The fields of an argument object, as the typed parameters of a handler.\<close>

definition opt_string :: "arguments \<Rightarrow> string \<Rightarrow> string option" where
  "opt_string args k = (case map_of args k of Some (JStr s) \<Rightarrow> Some s | _ \<Rightarrow> None)"

definition opt_bool :: "arguments \<Rightarrow> string \<Rightarrow> bool option" where
  "opt_bool args k = (case map_of args k of Some (JBool b) \<Rightarrow> Some b | _ \<Rightarrow> None)"

definition opt_number :: "arguments \<Rightarrow> string \<Rightarrow> real option" where
  "opt_number args k = (case map_of args k of Some (JNum x) \<Rightarrow> Some x | _ \<Rightarrow> None)"

definition count_params_of :: "arguments \<Rightarrow> count_params" where
  "count_params_of args =
     \<lparr>folderPath = opt_string args ''folderPath'',
      count_files = opt_bool args ''count_files'',
      count_folders = opt_bool args ''count_folders'',
      recursive' = opt_bool args ''recursive'',
      pattern = opt_string args ''pattern'',
      max_depth = opt_number args ''max_depth'',
      min_size_kb = opt_number args ''min_size_kb'',
      max_size_kb = opt_number args ''max_size_kb'',
      modified_since_days = opt_number args ''modified_since_days'',
      includeHidden = opt_bool args ''includeHidden''\<rparr>"

text \<open>
  ping-tool: \<^verbatim>\<open>const { target, count = '4', timeout = '5', output_path } = params;\<close> and
  the command line built from it on a platform other than \<^verbatim>\<open>win32\<close> or on \<^verbatim>\<open>win32\<close>;
  \<open>quote\<close> is \<^verbatim>\<open>quote([s])\<close> of the shell-quote library.
\<close>

record ping_locals =
  target :: "string option"
  count :: string
  timeout' :: string
  output_path :: "string option"

definition ping_destructure :: "arguments \<Rightarrow> ping_locals" where
  "ping_destructure params =
     \<lparr>target = opt_string params ''target'',
      count = (case opt_string params ''count'' of None \<Rightarrow> ''4'' | Some c \<Rightarrow> c),
      timeout' = (case opt_string params ''timeout'' of None \<Rightarrow> ''5'' | Some t \<Rightarrow> t),
      output_path = opt_string params ''output_path''\<rparr>"

definition ping_command :: "(string \<Rightarrow> string) \<Rightarrow> bool \<Rightarrow> ping_locals \<Rightarrow> string" where
  "ping_command quote win32 l =
     (if win32 then
        ''ping -n '' @ quote (count l) @ '' -w '' @ quote (timeout' l) @ '' ''
        @ quote (case target l of None \<Rightarrow> [] | Some t \<Rightarrow> t)
      else
        ''ping -c '' @ quote (count l) @ '' -W '' @ quote (timeout' l) @ '' ''
        @ quote (case target l of None \<Rightarrow> [] | Some t \<Rightarrow> t))"

text \<open>The two tools as registry entries; the handlers read the world and leave it as it is.\<close>

definition countFiles_tool :: "count_env tool_definition" where
  "countFiles_tool =
     \<lparr>tool_schema = countFiles_inputSchema,
      tool_handler = (\<lambda>args env. (countFiles_handler env (count_params_of args), env))\<rparr>"

definition read_params_of :: "arguments \<Rightarrow> read_params" where
  "read_params_of args =
     \<lparr>filePaths = (case opt_string args ''filePaths'' of None \<Rightarrow> [] | Some s \<Rightarrow> s),
      startLine = map_option floor (opt_number args ''startLine''),
      endLine = map_option floor (opt_number args ''endLine''),
      encoding = (case opt_string args ''encoding'' of None \<Rightarrow> [] | Some s \<Rightarrow> s),
      binary_mode = (opt_bool args ''binary_mode'' = Some True),
      max_bytes = map_option floor (opt_number args ''max_bytes''),
      timeout = opt_number args ''timeout''\<rparr>"

definition readFile_tool :: "read_env tool_definition" where
  "readFile_tool =
     \<lparr>tool_schema = readFile_inputSchema,
      tool_handler = (\<lambda>args env. (readFile_handler env (read_params_of args), env))\<rparr>"

text \<open>The schema of the specification's scenario: \<open>{count: {type: number, default: 4}}\<close>.\<close>

definition scenario_schema :: schema where
  "scenario_schema = [default' (JNum 4) (optional (z_field ''count'' z_number))]"


text \<open>
  A tool with the scenario's schema whose handler answers with the \<open>count\<close> it receives.
\<close>

definition scenario_tool :: "unit tool_definition" where
  "scenario_tool =
     \<lparr>tool_schema = scenario_schema,
      tool_handler =
        (\<lambda>args w. (Resolved (success [Val (case map_of args ''count'' of
                                               None \<Rightarrow> JUndefined | Some v \<Rightarrow> v)]), w))\<rparr>"


section \<open>Theorems\<close>

text \<open>
  C8. Each of the two process-level listeners appends one line to the error log and
  leaves the process exited with code 1, whatever escaped and whatever the process
  state was.
\<close>

theorem top_level_handlers_exit_1:
  "status (emit ev p) = Exited 1
   \<and> status (on_uncaughtException e p) = Exited 1
   \<and> console_error (on_uncaughtException e p) = console_error p @ [[Lit ''Uncaught Exception:'', Val e]]
   \<and> status (on_unhandledRejection e p) = Exited 1
   \<and> console_error (on_unhandledRejection e p) =
       console_error p @ [[Lit ''Unhandled Promise Rejection:'', Val e]]"
  by (cases ev) (simp_all add: on_uncaughtException_def on_unhandledRejection_def
      process_exit_def log_error_def)

text \<open>The loop of \<open>registryTools\<close> when no registration function throws.\<close>

lemma forEach_registryFn_returns:
  "call_each_once (functions_of es) s = (s', None) \<Longrightarrow>
   forEach_registryFn es s p =
     (None, s', p\<lparr>console_error := console_error p @ map not_a_function (non_functions_of es)\<rparr>)"
proof (induction es arbitrary: s p)
  case Nil
  then show ?case by simp
next
  case (Cons x es)
  show ?case
  proof (cases x)
    case (Fn f)
    with Cons.prems obtain s1 where s1: "f s = (s1, None)"
      "call_each_once (functions_of es) s1 = (s', None)"
      by (auto split: prod.splits option.splits)
    from Cons.IH [OF s1(2)] Fn s1(1) show ?thesis by simp
  next
    case (NotFn v)
    with Cons.prems have "call_each_once (functions_of es) s = (s', None)" by simp
    from Cons.IH [OF this] NotFn show ?thesis by (simp add: log_error_def)
  qed
qed

text \<open>
  The loop when a registration function throws: the throw leaves the loop with the server
  as that function left it and the diagnostics written so far, whatever entries follow.
\<close>

lemma forEach_registryFn_throws:
  "call_each_once (functions_of pre) s = (s1, None) \<Longrightarrow> f s1 = (s2, Some e) \<Longrightarrow>
   forEach_registryFn (pre @ Fn f # post) s p =
     (Some e, s2, p\<lparr>console_error := console_error p @ map not_a_function (non_functions_of pre)\<rparr>)"
proof (induction pre arbitrary: s p)
  case Nil
  then show ?case by simp
next
  case (Cons x pre)
  show ?case
  proof (cases x)
    case (Fn g)
    with Cons.prems(1) obtain s0 where s0: "g s = (s0, None)"
      "call_each_once (functions_of pre) s0 = (s1, None)"
      by (auto split: prod.splits option.splits)
    from Cons.IH [OF s0(2) Cons.prems(2)] Fn s0(1) show ?thesis by simp
  next
    case (NotFn v)
    with Cons.prems(1) have "call_each_once (functions_of pre) s = (s1, None)" by simp
    from Cons.IH [OF this Cons.prems(2)] NotFn show ?thesis by (simp add: log_error_def)
  qed
qed

text \<open>
  C2 (amended). For every list of entries in which no registration function throws,
  \<open>registryTools\<close> returns normally; the server is the one obtained by calling every
  function entry exactly once, in order; the error log gains exactly one line per entry
  that is not a function, in order, and the info log gains the one closing line. If a
  registration function throws, being the first to do so, \<open>registryTools\<close> throws the
  same value; the server is as that function left it, so no function entry after it is
  called; the error log holds the diagnostics of the entries before it only, so no entry
  after it is diagnosed; and the closing line is not written.
\<close>

theorem registryTools_bootstrap:
  "(call_each_once (functions_of es) s = (s', None) \<longrightarrow>
      registryTools es s p =
        (None, s',
         p\<lparr>console_error := console_error p @ map not_a_function (non_functions_of es),
           console_log := console_log p @
             [[Num (real (length es)), Lit '' tools have been registered.'']]\<rparr>))
   \<and> (call_each_once (functions_of pre) s = (s1, None) \<and> f s1 = (s2, Some e) \<longrightarrow>
        registryTools (pre @ Fn f # post) s p =
          (Some e, s2,
           p\<lparr>console_error := console_error p @ map not_a_function (non_functions_of pre)\<rparr>))"
proof (intro conjI impI)
  assume "call_each_once (functions_of es) s = (s', None)"
  from forEach_registryFn_returns [OF this, of p]
  show "registryTools es s p =
        (None, s',
         p\<lparr>console_error := console_error p @ map not_a_function (non_functions_of es),
           console_log := console_log p @
             [[Num (real (length es)), Lit '' tools have been registered.'']]\<rparr>)"
    by (simp add: registryTools_def log_info_def)
next
  assume a: "call_each_once (functions_of pre) s = (s1, None) \<and> f s1 = (s2, Some e)"
  then have "forEach_registryFn (pre @ Fn f # post) s p =
     (Some e, s2, p\<lparr>console_error := console_error p @ map not_a_function (non_functions_of pre)\<rparr>)"
    using forEach_registryFn_throws [of pre s s1 f s2 e post p] by blast
  then show "registryTools (pre @ Fn f # post) s p =
          (Some e, s2,
           p\<lparr>console_error := console_error p @ map not_a_function (non_functions_of pre)\<rparr>)"
    by (simp add: registryTools_def)
qed

text \<open>
  The scenario of the claim: three entries, two registering functions and one value that
  is not a function. Exactly two tools are registered and exactly one diagnostic is
  logged. And a list in which the third entry registers and then throws: the two entries
  after it leave no trace.
\<close>

theorem registryTools_bootstrap_witness:
  "registryTools [registers ''ping-tool'', NotFn JUndefined, registers ''count-files''] [] process0 =
     (None, [''ping-tool'', ''count-files''],
      \<lparr>status = Running,
       console_error = [[Lit ''An imported tool is not a function:'', Val JUndefined]],
       console_log = [[Num 3, Lit '' tools have been registered.'']]\<rparr>)
   \<and> registryTools
        ([NotFn JNull, registers ''ping-tool''] @
         registers_then_throws ''read-file'' (JError ''boom'') #
         [registers ''count-files'', NotFn JUndefined]) [] process0 =
     (Some (JError ''boom''), [''ping-tool'', ''read-file''],
      \<lparr>status = Running,
       console_error = [[Lit ''An imported tool is not a function:'', Val JNull]],
       console_log = []\<rparr>)"
proof -
  have a: "registryTools [registers ''ping-tool'', NotFn JUndefined, registers ''count-files''] [] process0 =
     (None, [''ping-tool'', ''count-files''],
      \<lparr>status = Running,
       console_error = [[Lit ''An imported tool is not a function:'', Val JUndefined]],
       console_log = [[Num 3, Lit '' tools have been registered.'']]\<rparr>)"
    using registryTools_bootstrap
      [of "[registers ''ping-tool'', NotFn JUndefined, registers ''count-files'']" "[]"
          "[''ping-tool'', ''count-files'']" process0 "[]" "[]" "\<lambda>s. (s, None)" "[]" JNull "[]"]
    by (simp add: registers_def registerTool_def process0_def not_a_function_def)
  have b: "registryTools
        ([NotFn JNull, registers ''ping-tool''] @
         registers_then_throws ''read-file'' (JError ''boom'') #
         [registers ''count-files'', NotFn JUndefined]) [] process0 =
     (Some (JError ''boom''), [''ping-tool'', ''read-file''],
      \<lparr>status = Running,
       console_error = [[Lit ''An imported tool is not a function:'', Val JNull]],
       console_log = []\<rparr>)"
    using registryTools_bootstrap
      [of "[]" "[]" "[]" process0 "[NotFn JNull, registers ''ping-tool'']" "[''ping-tool'']"
          "\<lambda>s. (registerTool ''read-file'' s, Some (JError ''boom''))"
          "[''ping-tool'', ''read-file'']" "JError ''boom''"
          "[registers ''count-files'', NotFn JUndefined]"]
    by (simp add: registers_def registers_then_throws_def registerTool_def process0_def
        not_a_function_def)
  from a b show ?thesis by simp
qed

text \<open>
  The claim as stated fails where a registration function throws: the function entry after
  it is never called and the entry that is not a function gets no diagnostic.
\<close>

theorem registryTools_throw_counterexample:
  "registryTools [throws (JError ''boom''), registers ''count-files'', NotFn JUndefined] [] process0 =
     (Some (JError ''boom''), [], process0)"
  by (simp add: registryTools_def throws_def registers_def)









lemma watchFileChanges_start_invariant:
  assumes inv: "one_watcher_per_path st"
    and free: "activeWatchers st p = None"
  shows "one_watcher_per_path
           (log_watch m (st\<lparr>activeWatchers := (activeWatchers st)(p \<mapsto> \<lparr>watched_path = p, watch_recursive = r, on_change_command = c\<rparr>),
                          open_watchers := open_watchers st @ [\<lparr>watched_path = p, watch_recursive = r, on_change_command = c\<rparr>]\<rparr>))"
proof -
  from inv free have "p \<notin> watched_path ` set (open_watchers st)"
    by (auto simp: one_watcher_per_path_def list_all_iff)
  with inv show ?thesis
    by (auto simp: one_watcher_per_path_def list_all_iff log_watch_def)
qed

lemma watchFileChanges_stop_invariant:
  assumes inv: "one_watcher_per_path st"
    and held: "activeWatchers st p = Some w"
  shows "one_watcher_per_path
           (log_watch m (st\<lparr>activeWatchers := (activeWatchers st)(p := None),
                          open_watchers := removeAll w (open_watchers st)\<rparr>))"
proof -
  have d: "distinct (map watched_path (removeAll w (open_watchers st)))"
    using inv by (simp add: one_watcher_per_path_def distinct_map_filter removeAll_filter_not_eq)
  have "\<And>v. v \<in> set (open_watchers st) \<Longrightarrow> v \<noteq> w \<Longrightarrow> watched_path v \<noteq> p"
    using inv held by (auto simp: one_watcher_per_path_def list_all_iff)
  with inv d show ?thesis
    by (auto simp: one_watcher_per_path_def list_all_iff log_watch_def)
qed

text \<open>
  C7. In every state of the module, a \<open>start\<close> for a path that \<^verbatim>\<open>activeWatchers\<close>
  already holds, and a \<open>stop\<close> for a path it does not hold, resolve to an error Outcome
  and leave the whole state as it was: the map, and the open watchers, so no second
  watcher is opened. Every invocation keeps the invariant that the open watchers are on
  pairwise different paths, each the map's entry for its path.
\<close>

theorem watchFileChanges_one_watcher_per_path:
  "(action params = ''start'' \<and> activeWatchers st (path_resolve env (target_path params)) \<noteq> None \<longrightarrow>
      (\<exists>t. watchFileChanges_handler env params st =
             (Resolved \<lparr>content = [TextBlock t], isError = Some True\<rparr>, st)))
   \<and> (action params = ''stop'' \<and> activeWatchers st (path_resolve env (target_path params)) = None \<longrightarrow>
      (\<exists>t. watchFileChanges_handler env params st =
             (Resolved \<lparr>content = [TextBlock t], isError = Some True\<rparr>, st)))
   \<and> (one_watcher_per_path st \<longrightarrow>
        one_watcher_per_path (snd (watchFileChanges_handler env params st)))"
proof (intro conjI impI)
  assume "action params = ''start'' \<and> activeWatchers st (path_resolve env (target_path params)) \<noteq> None"
  then show "\<exists>t. watchFileChanges_handler env params st =
             (Resolved \<lparr>content = [TextBlock t], isError = Some True\<rparr>, st)"
    by (auto simp: watchFileChanges_handler_def failure_def Let_def)
next
  assume "action params = ''stop'' \<and> activeWatchers st (path_resolve env (target_path params)) = None"
  then show "\<exists>t. watchFileChanges_handler env params st =
             (Resolved \<lparr>content = [TextBlock t], isError = Some True\<rparr>, st)"
    by (auto simp: watchFileChanges_handler_def failure_def Let_def)
next
  assume inv: "one_watcher_per_path st"
  show "one_watcher_per_path (snd (watchFileChanges_handler env params st))"
    using inv watchFileChanges_start_invariant [OF inv] watchFileChanges_stop_invariant [OF inv]
    by (auto simp: watchFileChanges_handler_def Let_def split: option.splits)
qed

theorem watchFileChanges_one_watcher_per_path_witness:
  "watchFileChanges_handler watch_env_example
     \<lparr>action = ''start'', target_path = ''src'', command = Some ''make'', recursive = Some False\<rparr>
     watch_state_example =
     (Resolved \<lparr>content = [TextBlock [Lit ''Already watching path: '', Lit ''/work/src'',
                                      Lit ''. Stop it first.'']], isError = Some True\<rparr>,
      watch_state_example)
   \<and> watchFileChanges_handler watch_env_example
     \<lparr>action = ''stop'', target_path = ''docs'', command = None, recursive = Some False\<rparr>
     watch_state_example =
     (Resolved \<lparr>content = [TextBlock [Lit ''No active watcher found for path: '', Lit ''/work/docs'']],
                isError = Some True\<rparr>,
      watch_state_example)
   \<and> one_watcher_per_path watch_state_example
   \<and> one_watcher_per_path (snd (watchFileChanges_handler watch_env_example
        \<lparr>action = ''start'', target_path = ''docs'', command = Some ''make'', recursive = Some False\<rparr>
        watch_state_example))
   \<and> open_watchers (snd (watchFileChanges_handler watch_env_example
        \<lparr>action = ''start'', target_path = ''docs'', command = Some ''make'', recursive = Some False\<rparr>
        watch_state_example)) =
       [watcher_example,
        \<lparr>watched_path = ''/work/docs'', watch_recursive = Some False, on_change_command = ''make''\<rparr>]"
proof -
  let ?start = "\<lparr>action = ''start'', target_path = ''src'', command = Some ''make'', recursive = Some False\<rparr>"
  let ?stop = "\<lparr>action = ''stop'', target_path = ''docs'', command = None, recursive = Some False\<rparr>"
  let ?fresh = "\<lparr>action = ''start'', target_path = ''docs'', command = Some ''make'', recursive = Some False\<rparr>"
  have inv: "one_watcher_per_path watch_state_example"
    by (simp add: one_watcher_per_path_def watch_state_example_def watcher_example_def)
  have a: "watchFileChanges_handler watch_env_example ?start watch_state_example =
     (Resolved \<lparr>content = [TextBlock [Lit ''Already watching path: '', Lit ''/work/src'',
                                      Lit ''. Stop it first.'']], isError = Some True\<rparr>,
      watch_state_example)"
    using watchFileChanges_one_watcher_per_path [of ?start watch_state_example watch_env_example]
    by (simp add: watchFileChanges_handler_def watch_env_example_def watch_state_example_def
        failure_def Let_def)
  have b: "watchFileChanges_handler watch_env_example ?stop watch_state_example =
     (Resolved \<lparr>content = [TextBlock [Lit ''No active watcher found for path: '', Lit ''/work/docs'']],
                isError = Some True\<rparr>,
      watch_state_example)"
    using watchFileChanges_one_watcher_per_path [of ?stop watch_state_example watch_env_example]
    by (simp add: watchFileChanges_handler_def watch_env_example_def watch_state_example_def
        failure_def Let_def)
  have c: "one_watcher_per_path (snd (watchFileChanges_handler watch_env_example ?fresh watch_state_example))"
    using watchFileChanges_one_watcher_per_path [of ?fresh watch_state_example watch_env_example] inv
    by simp
  have d: "open_watchers (snd (watchFileChanges_handler watch_env_example ?fresh watch_state_example)) =
       [watcher_example,
        \<lparr>watched_path = ''/work/docs'', watch_recursive = Some False, on_change_command = ''make''\<rparr>]"
    by (simp add: watchFileChanges_handler_def watch_env_example_def watch_state_example_def
        log_watch_def Let_def)
  from inv a b c d show ?thesis by simp
qed

lemma map_of_define_property: "map_of (define_property k v kvs) = (map_of kvs)(k \<mapsto> v)"
  by (induction kvs) (auto simp: fun_upd_twist)

lemma keys_define_property: "fst ` set (define_property k v kvs) = insert k (fst ` set kvs)"
  by (simp add: dom_map_of_conv_image_fst [symmetric] map_of_define_property)

lemma distinct_define_property:
  "distinct (map fst kvs) \<Longrightarrow> distinct (map fst (define_property k v kvs))"
proof (induction kvs)
  case Nil
  then show ?case by simp
next
  case (Cons kv kvs)
  obtain k' v' where kv: "kv = (k', v')" by (cases kv)
  show ?case
  proof (cases "k = k'")
    case True
    with Cons.prems kv show ?thesis by simp
  next
    case False
    from Cons.prems kv have "k' \<notin> fst ` set kvs" and "distinct (map fst kvs)" by auto
    with False Cons.IH kv show ?thesis by (simp add: keys_define_property)
  qed
qed

lemma distinct_set_property:
  "distinct (map fst kvs) \<Longrightarrow> distinct (map fst (set_property k v kvs))"
  by (simp add: set_property_def distinct_define_property)

lemma map_of_set_property:
  "map_of (set_property k v kvs) =
   (if k = ''__proto__'' then map_of kvs else (map_of kvs)(k \<mapsto> v))"
  by (simp add: set_property_def map_of_define_property)

lemma map_of_read_operation:
  "map_of (foldl (\<lambda>results filePath. set_property filePath (JStr (read_one env params filePath)) results)
             acc paths) p =
   (if p \<in> set paths \<and> p \<noteq> ''__proto__'' then Some (JStr (read_one env params p))
    else map_of acc p)"
proof (induction paths arbitrary: acc)
  case Nil
  then show ?case by simp
next
  case (Cons q qs)
  show ?case by (simp add: Cons.IH map_of_set_property)
qed

lemma distinct_read_operation:
  "distinct (map fst acc) \<Longrightarrow>
   distinct (map fst (foldl (\<lambda>results filePath.
                set_property filePath (JStr (read_one env params filePath)) results) acc paths))"
proof (induction paths arbitrary: acc)
  case Nil
  then show ?case by simp
next
  case (Cons q qs)
  from Cons.prems have "distinct (map fst (set_property q (JStr (read_one env params q)) acc))"
    by (rule distinct_set_property)
  from Cons.IH [OF this] show ?case by simp
qed

text \<open>The order in which the properties are listed does not change what each key holds.\<close>

lemma map_of_own_property_order:
  assumes "distinct (map fst kvs)"
  shows "map_of (own_property_order kvs) = map_of kvs"
proof -
  from assms have d: "distinct kvs" and i: "inj_on fst (set kvs)"
    by (simp_all add: distinct_map)
  have s: "set (own_property_order kvs) = set kvs"
    by (auto simp: own_property_order_def)
  have "distinct (own_property_order kvs)"
    using d by (auto simp: own_property_order_def)
  with s i have "distinct (map fst (own_property_order kvs))"
    by (simp add: distinct_map)
  with assms s show ?thesis
    by (simp add: map_of_inject_set)
qed

lemma readFile_handler_in_time:
  assumes "operation_duration env = Some d" and "d < normalizeTimeout1 (timeout params)"
  shows "readFile_handler env params =
         Resolved (success [Stringified (JObj (own_property_order (read_operation env params
           (filter (\<lambda>p. p \<noteq> []) (split_on CHR '' '' (filePaths params))))))])"
  using assms by (simp add: readFile_handler_def withTimeout_def Let_def)

text \<open>
  C10. With its default parameters \<open>normalizeTimeout t\<close> is
  \<open>min (max (t ?? 120) 1) 600 * 1000\<close>; the result lies between 1000 ms and 600000 ms
  inclusive; a requested timeout of 0 or below becomes 1000 ms and one of 600 or above
  becomes 600000 ms. For read-file, which races its work against this timeout: work that
  ends within less than 1000 ms is never cut off, and work that takes 600000 ms or more,
  or never ends, always is, whatever timeout was requested.
\<close>

theorem normalizeTimeout_clamps:
  "normalizeTimeout1 t = min (max (case t of None \<Rightarrow> 120 | Some x \<Rightarrow> x) 1) 600 * 1000
   \<and> 1000 \<le> normalizeTimeout1 t \<and> normalizeTimeout1 t \<le> 600000
   \<and> (\<forall>x. x \<le> 0 \<longrightarrow> normalizeTimeout1 (Some x) = 1000)
   \<and> (\<forall>x. 600 \<le> x \<longrightarrow> normalizeTimeout1 (Some x) = 600000)
   \<and> normalizeTimeout1 None = 120000
   \<and> (operation_duration env = Some d \<and> d < 1000 \<longrightarrow>
        (\<exists>results. readFile_handler env rp = Resolved (success [Stringified (JObj results)])))
   \<and> (operation_duration env = None
        \<or> (\<exists>d'. operation_duration env = Some d' \<and> 600000 \<le> d') \<longrightarrow>
        readFile_handler env rp =
          Resolved (failure [Lit ''An unexpected error occurred: '',
                             Lit ''File reading operation timed out after '',
                             Num (normalizeTimeout1 (timeout rp)), Lit ''ms'']))"
proof -
  have eq: "\<And>t. normalizeTimeout1 t =
      min (max (case t of None \<Rightarrow> 120 | Some x \<Rightarrow> x) 1) 600 * 1000"
    by (simp add: normalizeTimeout1_def normalizeTimeout_def Let_def)
  have lo: "\<And>t. 1000 \<le> normalizeTimeout1 t" and hi: "\<And>t. normalizeTimeout1 t \<le> 600000"
    by (auto simp: eq min_def max_def split: option.splits)
  have low: "\<forall>x. x \<le> 0 \<longrightarrow> normalizeTimeout1 (Some x) = 1000"
    and high: "\<forall>x. 600 \<le> x \<longrightarrow> normalizeTimeout1 (Some x) = 600000"
    and dflt: "normalizeTimeout1 None = 120000"
    by (auto simp: eq min_def max_def)
  have fast: "operation_duration env = Some d \<and> d < 1000 \<longrightarrow>
        (\<exists>results. readFile_handler env rp = Resolved (success [Stringified (JObj results)]))"
  proof
    assume a: "operation_duration env = Some d \<and> d < 1000"
    with lo [of "timeout rp"] have "d < normalizeTimeout1 (timeout rp)" by simp
    with a show "\<exists>results. readFile_handler env rp = Resolved (success [Stringified (JObj results)])"
      using readFile_handler_in_time [of env d rp] by blast
  qed
  have slow: "operation_duration env = None
        \<or> (\<exists>d'. operation_duration env = Some d' \<and> 600000 \<le> d') \<longrightarrow>
        readFile_handler env rp =
          Resolved (failure [Lit ''An unexpected error occurred: '',
                             Lit ''File reading operation timed out after '',
                             Num (normalizeTimeout1 (timeout rp)), Lit ''ms''])"
  proof
    assume "operation_duration env = None
        \<or> (\<exists>d'. operation_duration env = Some d' \<and> 600000 \<le> d')"
    then show "readFile_handler env rp =
          Resolved (failure [Lit ''An unexpected error occurred: '',
                             Lit ''File reading operation timed out after '',
                             Num (normalizeTimeout1 (timeout rp)), Lit ''ms''])"
    proof
      assume "operation_duration env = None"
      then show ?thesis by (simp add: readFile_handler_def withTimeout_def Let_def)
    next
      assume "\<exists>d'. operation_duration env = Some d' \<and> 600000 \<le> d'"
      then obtain d' where d': "operation_duration env = Some d'" "600000 \<le> d'" by blast
      with hi [of "timeout rp"] have "\<not> d' < normalizeTimeout1 (timeout rp)" by simp
      with d' show ?thesis by (simp add: readFile_handler_def withTimeout_def Let_def)
    qed
  qed
  from eq [of t] lo [of t] hi [of t] low high dflt fast slow show ?thesis by blast
qed

theorem normalizeTimeout_clamps_witness:
  "normalizeTimeout1 (Some 0) = 1000 \<and> normalizeTimeout1 (Some (- 5)) = 1000
   \<and> normalizeTimeout1 (Some 601) = 600000 \<and> normalizeTimeout1 (Some (1 / 2)) = 1000
   \<and> normalizeTimeout1 (Some 30) = 30000 \<and> normalizeTimeout1 None = 120000
   \<and> readFile_handler read_env_example (read_params_example\<lparr>timeout := Some 0\<rparr>) =
       Resolved (success [Stringified (JObj
         [(''missing.txt'', JStr ''Error: File not found at path: missing.txt'')])])
   \<and> readFile_handler (read_env_example\<lparr>operation_duration := Some 600000\<rparr>)
        (read_params_example\<lparr>timeout := Some 100000\<rparr>) =
       Resolved (failure [Lit ''An unexpected error occurred: '',
                          Lit ''File reading operation timed out after '', Num 600000, Lit ''ms''])"
proof -
  let ?rp0 = "read_params_example\<lparr>timeout := Some 0\<rparr>"
  let ?slow = "read_env_example\<lparr>operation_duration := Some 600000\<rparr>"
  let ?rp1 = "read_params_example\<lparr>timeout := Some 100000\<rparr>"
  have a: "normalizeTimeout1 (Some 0) = 1000"
    using normalizeTimeout_clamps [of None read_env_example 5 ?rp0] by simp
  have b: "normalizeTimeout1 (Some (- 5)) = 1000"
    using normalizeTimeout_clamps [of None read_env_example 5 ?rp0] by simp
  have c: "normalizeTimeout1 (Some 601) = 600000"
    using normalizeTimeout_clamps [of None read_env_example 5 ?rp0] by simp
  have d: "normalizeTimeout1 (Some (1 / 2)) = 1000"
    using normalizeTimeout_clamps [of "Some (1 / 2)" read_env_example 5 ?rp0] by simp
  have e: "normalizeTimeout1 (Some 30) = 30000"
    using normalizeTimeout_clamps [of "Some 30" read_env_example 5 ?rp0] by simp
  have f: "normalizeTimeout1 None = 120000"
    using normalizeTimeout_clamps [of None read_env_example 5 ?rp0] by simp
  have not_index: "\<not> is_array_index ''missing.txt''"
    by (simp add: is_array_index_def is_digit_of_def digit_value_def Let_def)
  have "\<exists>results. readFile_handler read_env_example ?rp0 =
          Resolved (success [Stringified (JObj results)])"
    using normalizeTimeout_clamps [of None read_env_example 5 ?rp0]
    by (simp add: read_env_example_def)
  then have g: "readFile_handler read_env_example ?rp0 =
       Resolved (success [Stringified (JObj
         [(''missing.txt'', JStr ''Error: File not found at path: missing.txt'')])])"
    using not_index
    by (simp add: readFile_handler_def read_env_example_def read_params_example_def
        normalizeTimeout1_def normalizeTimeout_def withTimeout_def read_operation_def
        read_one_def set_property_def own_property_order_def Let_def)
  have t: "normalizeTimeout1 (timeout ?rp1) = 600000"
    using normalizeTimeout_clamps [of None ?slow 0 ?rp1] by (simp add: read_params_example_def)
  have h: "readFile_handler ?slow ?rp1 =
       Resolved (failure [Lit ''An unexpected error occurred: '',
                          Lit ''File reading operation timed out after '', Num 600000, Lit ''ms''])"
    using normalizeTimeout_clamps [of None ?slow 0 ?rp1] t
    by (simp add: read_env_example_def)
  from a b c d e f g h show ?thesis by simp
qed

text \<open>
  C6 (amended). count-files invoked on a path that does not exist resolves to an Outcome
  with \<open>isError = true\<close>. read-file does not: when the read ends before the timeout, the
  handler resolves to a success Outcome (no \<open>isError\<close>) whose object holds, under every
  requested path that does not exist, the string \<open>Error: File not found at path: p\<close>
  (the path \<^verbatim>\<open>__proto__\<close> excepted, under which the object never holds a property); its
  Outcome has \<open>isError = true\<close> only when the timeout elapses first.
\<close>

theorem missing_path_outcomes:
  "(lookup_path env (case folderPath cp of
                       None \<Rightarrow> path_join env (homedir env) ''Desktop''
                     | Some p \<Rightarrow> if p = [] then path_join env (homedir env) ''Desktop'' else p) = None
      \<longrightarrow> (\<exists>t. countFiles_handler env cp = Resolved \<lparr>content = [TextBlock t], isError = Some True\<rparr>))
   \<and> (operation_duration renv = Some d \<and> d < normalizeTimeout1 (timeout rp) \<longrightarrow>
        (\<exists>results. readFile_handler renv rp =
             Resolved \<lparr>content = [TextBlock [Stringified (JObj results)]], isError = None\<rparr>
           \<and> (\<forall>p. p \<in> set (split_on CHR '' '' (filePaths rp)) \<and> p \<noteq> [] \<and> p \<noteq> ''__proto__''
                  \<and> read_lookup renv p = None
                \<longrightarrow> map_of results p = Some (JStr (''Error: File not found at path: '' @ p)))
           \<and> map_of results ''__proto__'' = None))
   \<and> ((operation_duration renv = None
         \<or> (\<exists>d'. operation_duration renv = Some d' \<and> normalizeTimeout1 (timeout rp) \<le> d')) \<longrightarrow>
        (\<exists>t. readFile_handler renv rp = Resolved \<lparr>content = [TextBlock t], isError = Some True\<rparr>))"
proof (intro conjI impI)
  assume "lookup_path env (case folderPath cp of
                       None \<Rightarrow> path_join env (homedir env) ''Desktop''
                     | Some p \<Rightarrow> if p = [] then path_join env (homedir env) ''Desktop'' else p) = None"
  then show "\<exists>t. countFiles_handler env cp = Resolved \<lparr>content = [TextBlock t], isError = Some True\<rparr>"
    by (simp add: countFiles_handler_def failure_def Let_def)
next
  assume a: "operation_duration renv = Some d \<and> d < normalizeTimeout1 (timeout rp)"
  let ?paths = "filter (\<lambda>p. p \<noteq> []) (split_on CHR '' '' (filePaths rp))"
  let ?results = "own_property_order (read_operation renv rp ?paths)"
  have h: "readFile_handler renv rp =
      Resolved \<lparr>content = [TextBlock [Stringified (JObj ?results)]], isError = None\<rparr>"
    using readFile_handler_in_time [of renv d rp] a by (simp add: success_def)
  have "distinct (map fst (read_operation renv rp ?paths))"
    unfolding read_operation_def by (rule distinct_read_operation) simp
  then have m: "map_of ?results = map_of (read_operation renv rp ?paths)"
    by (rule map_of_own_property_order)
  have found: "\<forall>p. p \<in> set (split_on CHR '' '' (filePaths rp)) \<and> p \<noteq> [] \<and> p \<noteq> ''__proto__''
                  \<and> read_lookup renv p = None
           \<longrightarrow> map_of ?results p = Some (JStr (''Error: File not found at path: '' @ p))"
  proof (intro allI impI)
    fix p
    assume p: "p \<in> set (split_on CHR '' '' (filePaths rp)) \<and> p \<noteq> [] \<and> p \<noteq> ''__proto__''
                  \<and> read_lookup renv p = None"
    then have "map_of (read_operation renv rp ?paths) p = Some (JStr (read_one renv rp p))"
      by (simp add: read_operation_def map_of_read_operation)
    with p m show "map_of ?results p = Some (JStr (''Error: File not found at path: '' @ p))"
      by (simp add: read_one_def)
  qed
  have "map_of (read_operation renv rp ?paths) ''__proto__'' = None"
    by (simp add: read_operation_def map_of_read_operation)
  with m have none: "map_of ?results ''__proto__'' = None" by simp
  from h found none
  show "\<exists>results. readFile_handler renv rp =
             Resolved \<lparr>content = [TextBlock [Stringified (JObj results)]], isError = None\<rparr>
           \<and> (\<forall>p. p \<in> set (split_on CHR '' '' (filePaths rp)) \<and> p \<noteq> [] \<and> p \<noteq> ''__proto__''
                  \<and> read_lookup renv p = None
                \<longrightarrow> map_of results p = Some (JStr (''Error: File not found at path: '' @ p)))
           \<and> map_of results ''__proto__'' = None"
    by blast
next
  assume "operation_duration renv = None
         \<or> (\<exists>d'. operation_duration renv = Some d' \<and> normalizeTimeout1 (timeout rp) \<le> d')"
  then show "\<exists>t. readFile_handler renv rp = Resolved \<lparr>content = [TextBlock t], isError = Some True\<rparr>"
    by (auto simp: readFile_handler_def withTimeout_def failure_def Let_def)
qed

theorem missing_path_outcomes_witness:
  "countFiles_handler count_env_example count_params_example =
     Resolved \<lparr>content = [TextBlock [Lit ''Error: Path does not exist: '', Lit ''/nowhere'']],
               isError = Some True\<rparr>
   \<and> (\<exists>results. readFile_handler read_env_example (read_params_example\<lparr>filePaths := ''notes.txt gone.txt''\<rparr>) =
             Resolved \<lparr>content = [TextBlock [Stringified (JObj results)]], isError = None\<rparr>
           \<and> map_of results ''gone.txt'' = Some (JStr ''Error: File not found at path: gone.txt''))
   \<and> (\<exists>t. readFile_handler (read_env_example\<lparr>operation_duration := None\<rparr>) read_params_example =
             Resolved \<lparr>content = [TextBlock t], isError = Some True\<rparr>)
   \<and> readFile_handler read_env_example (read_params_example\<lparr>filePaths := ''__proto__''\<rparr>) =
       Resolved \<lparr>content = [TextBlock [Stringified (JObj [])]], isError = None\<rparr>
   \<and> readFile_handler read_env_example (read_params_example\<lparr>filePaths := ''b 10 9''\<rparr>) =
       Resolved \<lparr>content = [TextBlock [Stringified (JObj
                  [(''9'', JStr ''Error: File not found at path: 9''),
                   (''10'', JStr ''Error: File not found at path: 10''),
                   (''b'', JStr ''Error: File not found at path: b'')])]],
                 isError = None\<rparr>"
proof -
  let ?rp = "read_params_example\<lparr>filePaths := ''notes.txt gone.txt''\<rparr>"
  have t: "normalizeTimeout1 (timeout ?rp) = 120000"
    by (simp add: read_params_example_def normalizeTimeout1_def normalizeTimeout_def)
  note inst = missing_path_outcomes
    [of count_env_example count_params_example read_env_example 5 ?rp]
  have a: "countFiles_handler count_env_example count_params_example =
     Resolved \<lparr>content = [TextBlock [Lit ''Error: Path does not exist: '', Lit ''/nowhere'']],
               isError = Some True\<rparr>"
    using inst by (simp add: countFiles_handler_def count_env_example_def count_params_example_def
        failure_def)
  have b: "\<exists>results. readFile_handler read_env_example ?rp =
             Resolved \<lparr>content = [TextBlock [Stringified (JObj results)]], isError = None\<rparr>
           \<and> map_of results ''gone.txt'' = Some (JStr ''Error: File not found at path: gone.txt'')"
  proof -
    from inst t obtain results where r: "readFile_handler read_env_example ?rp =
             Resolved \<lparr>content = [TextBlock [Stringified (JObj results)]], isError = None\<rparr>"
      and all: "\<forall>p. p \<in> set (split_on CHR '' '' (filePaths ?rp)) \<and> p \<noteq> [] \<and> p \<noteq> ''__proto__''
                  \<and> read_lookup read_env_example p = None
                \<longrightarrow> map_of results p = Some (JStr (''Error: File not found at path: '' @ p))"
      by (auto simp: read_env_example_def)
    have "''gone.txt'' \<in> set (split_on CHR '' '' (filePaths ?rp))"
      by (simp add: read_params_example_def)
    moreover have "read_lookup read_env_example ''gone.txt'' = None"
      by (simp add: read_env_example_def)
    ultimately have "map_of results ''gone.txt'' = Some (JStr (''Error: File not found at path: '' @ ''gone.txt''))"
      using all by simp
    with r show ?thesis by auto
  qed
  have c: "\<exists>t. readFile_handler (read_env_example\<lparr>operation_duration := None\<rparr>) read_params_example =
             Resolved \<lparr>content = [TextBlock t], isError = Some True\<rparr>"
    using missing_path_outcomes
      [of count_env_example count_params_example "read_env_example\<lparr>operation_duration := None\<rparr>" 0
          read_params_example]
    by (simp add: read_env_example_def)
  have d: "readFile_handler read_env_example (read_params_example\<lparr>filePaths := ''__proto__''\<rparr>) =
       Resolved \<lparr>content = [TextBlock [Stringified (JObj [])]], isError = None\<rparr>"
    by (simp add: readFile_handler_def read_env_example_def read_params_example_def
        normalizeTimeout1_def normalizeTimeout_def withTimeout_def read_operation_def
        set_property_def own_property_order_def success_def Let_def)
  have idx: "is_array_index ''9''" "is_array_index ''10''" "\<not> is_array_index ''b''"
    "digits_value 10 ''9'' = 9" "digits_value 10 ''10'' = 10"
    by (simp_all add: is_array_index_def is_digit_of_def digit_value_def digits_value_def Let_def)
  have e: "readFile_handler read_env_example (read_params_example\<lparr>filePaths := ''b 10 9''\<rparr>) =
       Resolved \<lparr>content = [TextBlock [Stringified (JObj
                  [(''9'', JStr ''Error: File not found at path: 9''),
                   (''10'', JStr ''Error: File not found at path: 10''),
                   (''b'', JStr ''Error: File not found at path: b'')])]],
                 isError = None\<rparr>"
    by (simp add: readFile_handler_def read_env_example_def read_params_example_def
        normalizeTimeout1_def normalizeTimeout_def withTimeout_def read_operation_def
        read_one_def set_property_def own_property_order_def success_def Let_def idx)
  from a b c d e show ?thesis by blast
qed

text \<open>
  The claim as stated fails for read-file: invoked with one path that does not exist, it
  resolves to an Outcome without \<open>isError\<close>.
\<close>

theorem readFile_missing_counterexample:
  "readFile_handler read_env_example read_params_example =
     Resolved \<lparr>content = [TextBlock [Stringified (JObj
                  [(''missing.txt'', JStr ''Error: File not found at path: missing.txt'')])]],
               isError = None\<rparr>"
proof -
  have "\<not> is_array_index ''missing.txt''"
    by (simp add: is_array_index_def is_digit_of_def digit_value_def Let_def)
  then show ?thesis
    by (simp add: readFile_handler_def read_env_example_def read_params_example_def
        normalizeTimeout1_def normalizeTimeout_def withTimeout_def read_operation_def read_one_def
        set_property_def own_property_order_def success_def Let_def)
qed

text \<open>
  Every path through the \<^verbatim>\<open>try\<close> block ends in an Outcome: a throw inside it is caught.
\<close>

lemma write_and_return_resolves: "\<exists>out fs'. write_and_return fs data t = (Resolved out, fs')"
  by (simp add: write_and_return_def split: sum.splits)

lemma todo_switch_resolves: "\<exists>out fs'. todo_switch fs params data = (Resolved out, fs')"
  unfolding todo_switch_def Let_def
  by (simp add: write_and_return_resolves split: option.splits)

lemma todoList_handler_resolves_unless_unparseable:
  "(\<exists>fs'. todoList_handler fs params = (Rejected e, fs')) \<longleftrightarrow> todo_file fs = Unparseable e"
proof (cases "todo_file fs")
  case Absent
  obtain out fs' where "todo_switch fs params \<lparr>projects = [], current_project = None\<rparr> = (Resolved out, fs')"
    using todo_switch_resolves by blast
  with Absent show ?thesis by (simp add: todoList_handler_def readTodoData_def)
next
  case (Unparseable x)
  then show ?thesis by (auto simp: todoList_handler_def readTodoData_def)
next
  case (Parsed data)
  obtain out fs' where "todo_switch fs params data = (Resolved out, fs')"
    using todo_switch_resolves by blast
  with Parsed show ?thesis by (simp add: todoList_handler_def readTodoData_def)
qed

text \<open>
  C1. The handler of todo-list-tool, invoked with \<open>{operation: 'list_projects'}\<close> while
  \<^verbatim>\<open>todo-list.json\<close> holds text that \<^verbatim>\<open>JSON.parse\<close> rejects, does not resolve to an Outcome:
  its promise rejects with the error thrown by \<^verbatim>\<open>readTodoData\<close>, which the handler calls
  before its \<^verbatim>\<open>try\<close> block.
\<close>

theorem todoList_handler_rejects:
  "todoList_handler broken_todo_file list_projects_params =
     (Rejected (JError ''Unexpected end of JSON input''), broken_todo_file)"
  by (simp add: todoList_handler_def readTodoData_def broken_todo_file_def)

text \<open>The validator stops at the first declared field whose own check fails.\<close>

lemma validate_fields_first_failure:
  "validate_fields s raw = Inl e \<longleftrightarrow>
   (\<exists>pre f post. s = pre @ f # post
      \<and> list_all (\<lambda>g. \<exists>r. validate_field g raw = Inr r) pre
      \<and> validate_field f raw = Inl e)"
proof (induction s)
  case Nil
  then show ?case by simp
next
  case (Cons g gs)
  show ?case
  proof (cases "validate_field g raw")
    case (Inl e')
    show ?thesis
    proof
      assume "validate_fields (g # gs) raw = Inl e"
      with Inl have "e' = e" by simp
      with Inl have "g # gs = [] @ g # gs \<and> list_all (\<lambda>g. \<exists>r. validate_field g raw = Inr r) []
          \<and> validate_field g raw = Inl e" by simp
      then show "\<exists>pre f post. g # gs = pre @ f # post
          \<and> list_all (\<lambda>g. \<exists>r. validate_field g raw = Inr r) pre \<and> validate_field f raw = Inl e"
        by blast
    next
      assume "\<exists>pre f post. g # gs = pre @ f # post
          \<and> list_all (\<lambda>g. \<exists>r. validate_field g raw = Inr r) pre \<and> validate_field f raw = Inl e"
      then obtain pre f post where p: "g # gs = pre @ f # post"
        "list_all (\<lambda>g. \<exists>r. validate_field g raw = Inr r) pre" "validate_field f raw = Inl e"
        by blast
      have "pre = []"
      proof (cases pre)
        case Nil
        then show ?thesis .
      next
        case (Cons a as)
        with p(1) have "a = g" by simp
        with Cons p(2) Inl show ?thesis by simp
      qed
      with p(1) p(3) Inl show "validate_fields (g # gs) raw = Inl e" by simp
    qed
  next
    case (Inr r)
    have "validate_fields (g # gs) raw = Inl e \<longleftrightarrow> validate_fields gs raw = Inl e"
      using Inr by (simp split: sum.splits)
    also have "\<dots> \<longleftrightarrow> (\<exists>pre f post. gs = pre @ f # post
          \<and> list_all (\<lambda>g. \<exists>r. validate_field g raw = Inr r) pre \<and> validate_field f raw = Inl e)"
      by (rule Cons.IH)
    also have "\<dots> \<longleftrightarrow> (\<exists>pre f post. g # gs = pre @ f # post
          \<and> list_all (\<lambda>g. \<exists>r. validate_field g raw = Inr r) pre \<and> validate_field f raw = Inl e)"
    proof
      assume "\<exists>pre f post. gs = pre @ f # post
          \<and> list_all (\<lambda>g. \<exists>r. validate_field g raw = Inr r) pre \<and> validate_field f raw = Inl e"
      then obtain pre f post where p: "gs = pre @ f # post"
        "list_all (\<lambda>g. \<exists>r. validate_field g raw = Inr r) pre" "validate_field f raw = Inl e"
        by blast
      with Inr have "g # gs = (g # pre) @ f # post
          \<and> list_all (\<lambda>g. \<exists>r. validate_field g raw = Inr r) (g # pre) \<and> validate_field f raw = Inl e"
        by simp
      then show "\<exists>pre f post. g # gs = pre @ f # post
          \<and> list_all (\<lambda>g. \<exists>r. validate_field g raw = Inr r) pre \<and> validate_field f raw = Inl e"
        by blast
    next
      assume "\<exists>pre f post. g # gs = pre @ f # post
          \<and> list_all (\<lambda>g. \<exists>r. validate_field g raw = Inr r) pre \<and> validate_field f raw = Inl e"
      then obtain pre f post where p: "g # gs = pre @ f # post"
        "list_all (\<lambda>g. \<exists>r. validate_field g raw = Inr r) pre" "validate_field f raw = Inl e"
        by blast
      show "\<exists>pre f post. gs = pre @ f # post
          \<and> list_all (\<lambda>g. \<exists>r. validate_field g raw = Inr r) pre \<and> validate_field f raw = Inl e"
      proof (cases pre)
        case Nil
        with p(1) p(3) Inr show ?thesis by simp
      next
        case (Cons a as)
        with p have "gs = as @ f # post
          \<and> list_all (\<lambda>g. \<exists>r. validate_field g raw = Inr r) as \<and> validate_field f raw = Inl e"
          by simp
        then show ?thesis by blast
      qed
    qed
    finally show ?thesis .
  qed
qed

lemma validate_fields_some_failure:
  "f \<in> set s \<Longrightarrow> validate_field f raw = Inl e \<Longrightarrow> \<exists>e'. validate_fields s raw = Inl e'"
  by (induction s) (auto split: sum.splits)

lemma validate_Inl: "validate s raw = Inl e \<longleftrightarrow> validate_fields s raw = Inl e"
  by (simp add: validate_def split: sum.splits)

lemma validate_field_name:
  "validate_field f raw = Inr (Some (k, v)) \<Longrightarrow> k = field_name f"
  by (auto simp: validate_field_def split: option.splits sum.splits if_splits)

lemma validate_fields_keys:
  "validate_fields s raw = Inr typed \<Longrightarrow> fst ` set typed \<subseteq> field_name ` set s"
proof (induction s arbitrary: typed)
  case Nil
  then show ?case by simp
next
  case (Cons g gs)
  from Cons.prems obtain r rest where r: "validate_field g raw = Inr r"
    and rest: "validate_fields gs raw = Inr rest"
    and typed: "typed = (case r of None \<Rightarrow> rest | Some kv \<Rightarrow> kv # rest)"
    by (auto split: sum.splits)
  from Cons.IH [OF rest] have ih: "fst ` set rest \<subseteq> field_name ` set gs" .
  show ?case
  proof (cases r)
    case None
    with typed ih show ?thesis by auto
  next
    case (Some kv)
    with r have "fst kv = field_name g" using validate_field_name [of g raw "fst kv" "snd kv"] by simp
    with Some typed ih show ?thesis by auto
  qed
qed

lemma validate_fields_lookup:
  "validate_fields s raw = Inr typed \<Longrightarrow> distinct (map field_name s) \<Longrightarrow> f \<in> set s \<Longrightarrow>
   validate_field f raw = Inr (Some (field_name f, v)) \<Longrightarrow> map_of typed (field_name f) = Some v"
proof (induction s arbitrary: typed)
  case Nil
  then show ?case by simp
next
  case (Cons g gs)
  from Cons.prems(1) obtain r rest where r: "validate_field g raw = Inr r"
    and rest: "validate_fields gs raw = Inr rest"
    and typed: "typed = (case r of None \<Rightarrow> rest | Some kv \<Rightarrow> kv # rest)"
    by (auto split: sum.splits)
  show ?case
  proof (cases "f = g")
    case True
    with r Cons.prems(4) typed show ?thesis by simp
  next
    case False
    with Cons.prems have fin: "f \<in> set gs" and d: "distinct (map field_name gs)"
      and ne: "field_name g \<noteq> field_name f" by auto
    from Cons.IH [OF rest d fin Cons.prems(4)] have ih: "map_of rest (field_name f) = Some v" .
    show ?thesis
    proof (cases r)
      case None
      with typed ih show ?thesis by simp
    next
      case (Some kv)
      with r have "fst kv = field_name g" using validate_field_name [of g raw "fst kv" "snd kv"] by simp
      with Some typed ih ne show ?thesis by (cases kv) simp
    qed
  qed
qed

lemma validate_lookup:
  assumes "validate s raw = Inr args" and "distinct (map field_name s)" and "f \<in> set s"
    and "validate_field f raw = Inr (Some (field_name f, v))"
  shows "map_of args (field_name f) = Some v"
proof -
  from assms(1) obtain typed where t: "validate_fields s raw = Inr typed"
    and args: "args = typed @ filter (\<lambda>kv. fst kv \<notin> set (map field_name s)) raw"
    by (auto simp: validate_def split: sum.splits)
  from validate_fields_lookup [OF t assms(2) assms(3) assms(4)]
  have "map_of typed (field_name f) = Some v" .
  with args show ?thesis by (simp add: map_add_Some_iff)
qed

lemma dispatch_validated:
  "map_of reg n = Some d \<Longrightarrow> validate (tool_schema d) raw = Inr args \<Longrightarrow>
   fst (snd (dispatch reg n raw w)) = [args]"
  by (simp add: dispatch_def split: prod.splits settled.splits)

lemma dispatch_rejected:
  "map_of reg n = Some d \<Longrightarrow> validate (tool_schema d) raw = Inl (k, c) \<Longrightarrow>
   dispatch reg n raw w = (failure [Lit (describe c), Lit k], [], w)"
  by (simp add: dispatch_def)
lemma validate_fields_all_pass:
  assumes "list_all (\<lambda>g. \<exists>r. validate_field g raw = Inr r) s"
  shows "\<exists>typed. validate_fields s raw = Inr typed"
proof (cases "validate_fields s raw")
  case (Inl e)
  then obtain pre f post where "s = pre @ f # post" and "validate_field f raw = Inl e"
    using validate_fields_first_failure [of s raw e] by blast
  with assms show ?thesis by (auto simp: list_all_iff)
next
  case (Inr typed)
  then show ?thesis by blast
qed

text \<open>
  C3. For every schema and every raw-argument object, validation fails exactly when some
  declared field fails its own check, and the failure it returns is the single failure
  (one field name, one violated constraint) of the first such field in declaration order,
  whatever the later fields violate.
\<close>

theorem validate_reports_first_violation:
  "validate s raw = Inl e \<longleftrightarrow>
   (\<exists>pre f post. s = pre @ f # post
      \<and> list_all (\<lambda>g. \<exists>r. validate_field g raw = Inr r) pre
      \<and> validate_field f raw = Inl e)"
  by (simp only: validate_Inl validate_fields_first_failure)

theorem validate_reports_first_violation_witness:
  "validate countFiles_inputSchema
     [(''max_depth'', JNum (- 1)), (''count_files'', JStr ''yes''), (''pattern'', JBool True)]
   = Inl (''count_files'', WrongType)"
proof -
  let ?raw = "[(''max_depth'', JNum (- 1)), (''count_files'', JStr ''yes''), (''pattern'', JBool True)]"
  let ?pre = "[optional (z_field ''folderPath'' TString)]"
  let ?f = "default' (JBool True) (optional (z_field ''count_files'' TBoolean))"
  let ?post = "[default' (JBool False) (optional (z_field ''count_folders'' TBoolean)),
      default' (JBool False) (optional (z_field ''recursive'' TBoolean)),
      optional (z_field ''pattern'' TString),
      optional (z_field ''max_depth'' (z_int_min 0)),
      optional (z_field ''min_size_kb'' (z_int_min 0)),
      optional (z_field ''max_size_kb'' (z_int_min 0)),
      optional (z_field ''modified_since_days'' (z_int_min 0))]"
  have 1: "countFiles_inputSchema = ?pre @ ?f # ?post"
    by (simp add: countFiles_inputSchema_def)
  have 2: "list_all (\<lambda>g. \<exists>r. validate_field g ?raw = Inr r) ?pre"
    by (simp add: validate_field_def optional_def z_field_def)
  have 3: "validate_field ?f ?raw = Inl (''count_files'', WrongType)"
    by (simp add: validate_field_def optional_def z_field_def default'_def)
  from 1 2 3 have "\<exists>pre f post. countFiles_inputSchema = pre @ f # post
      \<and> list_all (\<lambda>g. \<exists>r. validate_field g ?raw = Inr r) pre
      \<and> validate_field f ?raw = Inl (''count_files'', WrongType)"
    by blast
  then show ?thesis
    using validate_reports_first_violation
      [of countFiles_inputSchema ?raw "(''count_files'', WrongType)"]
    by blast
qed

text \<open>
  C4. For every schema with distinct field names and every field of it that carries a
  default and is absent from the raw arguments: when validation succeeds, the validated
  arguments hold the default under the field's name, and the dispatcher invokes the
  handler with exactly these arguments. For count-files, empty raw arguments validate
  to \<open>count_files = true\<close>, \<open>count_folders = false\<close>, \<open>recursive = false\<close>. For ping-tool,
  whose schema declares no default, the handler's own destructuring gives \<open>count\<close> the
  string \<open>4\<close> when the field is absent.
\<close>

theorem absent_field_gets_default:
  "(f \<in> set s \<and> distinct (map field_name s) \<and> default_value f = Some d
      \<and> map_of raw (field_name f) = None \<and> validate s raw = Inr args
      \<and> map_of reg n = Some tool \<and> tool_schema tool = s
    \<longrightarrow> map_of args (field_name f) = Some d \<and> fst (snd (dispatch reg n raw w)) = [args])
   \<and> validate countFiles_inputSchema [] =
       Inr [(''count_files'', JBool True), (''count_folders'', JBool False),
            (''recursive'', JBool False)]
   \<and> (opt_string params ''count'' = None \<longrightarrow> count (ping_destructure params) = ''4'')"
proof (intro conjI impI)
  assume a: "f \<in> set s \<and> distinct (map field_name s) \<and> default_value f = Some d
      \<and> map_of raw (field_name f) = None \<and> validate s raw = Inr args
      \<and> map_of reg n = Some tool \<and> tool_schema tool = s"
  then have "validate_field f raw = Inr (Some (field_name f, d))"
    by (simp add: validate_field_def)
  with a show "map_of args (field_name f) = Some d"
    using validate_lookup [of s raw args f d] by blast
  from a show "fst (snd (dispatch reg n raw w)) = [args]"
    using dispatch_validated [of reg n tool raw args w] by blast
next
  show "validate countFiles_inputSchema [] =
       Inr [(''count_files'', JBool True), (''count_folders'', JBool False),
            (''recursive'', JBool False)]"
    by (simp add: validate_def countFiles_inputSchema_def validate_field_def optional_def
        z_field_def default'_def)
next
  assume "opt_string params ''count'' = None"
  then show "count (ping_destructure params) = ''4''"
    by (simp add: ping_destructure_def)
qed
theorem absent_field_gets_default_witness:
  "dispatch [(''scenario'', scenario_tool)] ''scenario'' [] () =
     (\<lparr>content = [TextBlock [Val (JNum 4)]], isError = None\<rparr>, [[(''count'', JNum 4)]], ())
   \<and> count_params_of [(''count_files'', JBool True), (''count_folders'', JBool False),
                       (''recursive'', JBool False)] =
       \<lparr>folderPath = None, count_files = Some True, count_folders = Some False,
        recursive' = Some False, pattern = None, max_depth = None, min_size_kb = None,
        max_size_kb = None, modified_since_days = None, includeHidden = None\<rparr>
   \<and> dispatch [(''count-files'', countFiles_tool)] ''count-files''
        [(''folderPath'', JStr ''/data'')] count_env_example =
       (\<lparr>content = [TextBlock [Lit (''Analysis of '' @ [CHR 0x27]), Lit ''/data'',
                                Lit ([CHR 0x27] @ '':'' @ [CHR 0x5C, CHR ''n'']),
                                Lit ''- Files found: '', Num 1, Lit [CHR 0x5C, CHR ''n'']]],
         isError = None\<rparr>,
        [[(''folderPath'', JStr ''/data''), (''count_files'', JBool True),
          (''count_folders'', JBool False), (''recursive'', JBool False)]],
        count_env_example)
   \<and> ping_command (\<lambda>s. s) False (ping_destructure [(''target'', JStr ''example.org'')]) =
       ''ping -c 4 -W 5 example.org''"
proof -
  let ?f = "default' (JNum 4) (optional (z_field ''count'' z_number))"
  have v: "validate scenario_schema [] = Inr [(''count'', JNum 4)]"
    by (simp add: validate_def scenario_schema_def validate_field_def optional_def
        z_field_def default'_def)
  have "map_of [(''count'', JNum 4)] (field_name ?f) = Some (JNum 4)
        \<and> fst (snd (dispatch [(''scenario'', scenario_tool)] ''scenario'' [] ())) = [[(''count'', JNum 4)]]"
    using absent_field_gets_default
      [of ?f scenario_schema "JNum 4" "[]" "[(''count'', JNum 4)]"
          "[(''scenario'', scenario_tool)]" "''scenario''" scenario_tool "()" "[]"] v
    by (simp add: scenario_schema_def scenario_tool_def default'_def optional_def z_field_def)
  then have calls: "fst (snd (dispatch [(''scenario'', scenario_tool)] ''scenario'' [] ())) =
      [[(''count'', JNum 4)]]"
    by simp
  have a: "dispatch [(''scenario'', scenario_tool)] ''scenario'' [] () =
     (\<lparr>content = [TextBlock [Val (JNum 4)]], isError = None\<rparr>, [[(''count'', JNum 4)]], ())"
    using calls by (simp add: dispatch_def scenario_tool_def v success_def)
  have b: "count_params_of [(''count_files'', JBool True), (''count_folders'', JBool False),
                       (''recursive'', JBool False)] =
       \<lparr>folderPath = None, count_files = Some True, count_folders = Some False,
        recursive' = Some False, pattern = None, max_depth = None, min_size_kb = None,
        max_size_kb = None, modified_since_days = None, includeHidden = None\<rparr>"
    by (simp add: count_params_of_def opt_string_def opt_bool_def opt_number_def)
  have vc: "validate countFiles_inputSchema [(''folderPath'', JStr ''/data'')] =
       Inr [(''folderPath'', JStr ''/data''), (''count_files'', JBool True),
          (''count_folders'', JBool False), (''recursive'', JBool False)]"
    by (simp add: validate_def countFiles_inputSchema_def validate_field_def optional_def
        z_field_def default'_def is_JStr_def)
  have walk: "listFilesRecursiveForCount count_env_example
      (count_params_of [(''folderPath'', JStr ''/data''), (''count_files'', JBool True),
          (''count_folders'', JBool False), (''recursive'', JBool False)]) ''/data''
      (Node IsDirectory (Inr \<lparr>stat_size = 0, stat_mtime = 0\<rparr>) None
         [(''a.txt'', Node IsFile (Inr \<lparr>stat_size = 3, stat_mtime = 0\<rparr>) None [])]) 0 =
      Inr [\<lparr>details_path = ''/data/a.txt'', details_type = TypeFile, details_size = 3,
            modified_date = 0\<rparr>]"
    by (simp add: count_env_example_def count_params_of_def opt_string_def opt_bool_def
        opt_number_def starts_with_dot_def pattern_rejects_def try_item_def Let_def)
  have c: "dispatch [(''count-files'', countFiles_tool)] ''count-files''
        [(''folderPath'', JStr ''/data'')] count_env_example =
       (\<lparr>content = [TextBlock [Lit (''Analysis of '' @ [CHR 0x27]), Lit ''/data'',
                                Lit ([CHR 0x27] @ '':'' @ [CHR 0x5C, CHR ''n'']),
                                Lit ''- Files found: '', Num 1, Lit [CHR 0x5C, CHR ''n'']]],
         isError = None\<rparr>,
        [[(''folderPath'', JStr ''/data''), (''count_files'', JBool True),
          (''count_folders'', JBool False), (''recursive'', JBool False)]],
        count_env_example)"
  proof -
    let ?args = "[(''folderPath'', JStr ''/data''), (''count_files'', JBool True),
          (''count_folders'', JBool False), (''recursive'', JBool False)]"
    have look: "lookup_path count_env_example ''/data'' =
        Some (Node IsDirectory (Inr \<lparr>stat_size = 0, stat_mtime = 0\<rparr>) None
         [(''a.txt'', Node IsFile (Inr \<lparr>stat_size = 3, stat_mtime = 0\<rparr>) None [])])"
      by (simp add: count_env_example_def)
    have p1: "folderPath (count_params_of ?args) = Some ''/data''"
      and p2: "count_files (count_params_of ?args) = Some True"
      and p3: "count_folders (count_params_of ?args) = Some False"
      by (simp_all add: count_params_of_def opt_string_def opt_bool_def)
    have t: "trim [Lit (''Analysis of '' @ [CHR 0x27]), Lit ''/data'',
                   Lit ([CHR 0x27] @ '':'' @ backslash_n),
                   Lit ''- Files found: '', Num 1, Lit backslash_n] =
             [Lit (''Analysis of '' @ [CHR 0x27]), Lit ''/data'',
                   Lit ([CHR 0x27] @ '':'' @ [CHR 0x5C, CHR ''n'']),
                   Lit ''- Files found: '', Num 1, Lit [CHR 0x5C, CHR ''n'']]"
      by (simp add: trim_def backslash_n_def is_space_def)
    have h: "countFiles_handler count_env_example (count_params_of ?args) =
        Resolved (success [Lit (''Analysis of '' @ [CHR 0x27]), Lit ''/data'',
                   Lit ([CHR 0x27] @ '':'' @ [CHR 0x5C, CHR ''n'']),
                   Lit ''- Files found: '', Num 1, Lit [CHR 0x5C, CHR ''n'']])"
      unfolding countFiles_handler_def Let_def p1 p2 p3
      using t by (simp add: look walk del: listFilesRecursiveForCount.simps)
    show ?thesis
      by (simp add: dispatch_def countFiles_tool_def vc h success_def)
  qed
  have d: "ping_command (\<lambda>s. s) False (ping_destructure [(''target'', JStr ''example.org'')]) =
       ''ping -c 4 -W 5 example.org''"
    by (simp add: ping_command_def ping_destructure_def opt_string_def)
  from a b c d show ?thesis by simp
qed
text \<open>
  C5. For every schema, registered tool and numeric field declared with a minimum and/or
  a maximum: a supplied number below the minimum or above the maximum makes validation
  fail, and the dispatcher answers with an error Outcome without invoking the handler.
  A supplied value equal to a declared bound that lies within the other bound (and is an
  integer where the field is declared one) passes the field's check; when the other fields
  pass too, validation succeeds with that value and the handler is invoked with it.
\<close>

theorem range_constraint_enforced:
  "(f \<in> set s \<and> declared f = TNumber i lo hi \<and> map_of raw (field_name f) = Some (JNum v)
      \<and> (below_minimum lo v \<or> above_maximum hi v)
      \<and> map_of reg n = Some tool \<and> tool_schema tool = s
    \<longrightarrow> (\<exists>k c. validate s raw = Inl (k, c)
               \<and> dispatch reg n raw w = (failure [Lit (describe c), Lit k], [], w)))
   \<and> (declared f = TNumber i lo hi \<and> (lo = Some b \<or> hi = Some b)
      \<and> \<not> below_minimum lo b \<and> \<not> above_maximum hi b \<and> (i \<longrightarrow> is_integer b)
      \<and> map_of raw' (field_name f) = Some (JNum b)
    \<longrightarrow> validate_field f raw' = Inr (Some (field_name f, JNum b))
        \<and> (f \<in> set s \<and> distinct (map field_name s)
             \<and> list_all (\<lambda>g. \<exists>r. validate_field g raw' = Inr r) s
             \<and> map_of reg n = Some tool \<and> tool_schema tool = s
           \<longrightarrow> (\<exists>args. validate s raw' = Inr args \<and> map_of args (field_name f) = Some (JNum b)
                       \<and> fst (snd (dispatch reg n raw' w)) = [args])))"
proof (intro conjI impI)
  assume a: "f \<in> set s \<and> declared f = TNumber i lo hi \<and> map_of raw (field_name f) = Some (JNum v)
      \<and> (below_minimum lo v \<or> above_maximum hi v)
      \<and> map_of reg n = Some tool \<and> tool_schema tool = s"
  then have "\<exists>c. validate_field f raw = Inl (field_name f, c)"
    by (auto simp: validate_field_def)
  then obtain e where "validate_fields s raw = Inl e"
    using a validate_fields_some_failure [of f s raw] by blast
  then have "validate s raw = Inl e" by (simp add: validate_Inl)
  moreover obtain k c where "e = (k, c)" by (cases e)
  ultimately have v: "validate s raw = Inl (k, c)" by simp
  with a have "dispatch reg n raw w = (failure [Lit (describe c), Lit k], [], w)"
    using dispatch_rejected [of reg n tool raw k c w] by blast
  with v show "\<exists>k c. validate s raw = Inl (k, c)
               \<and> dispatch reg n raw w = (failure [Lit (describe c), Lit k], [], w)"
    by blast
next
  assume b: "declared f = TNumber i lo hi \<and> (lo = Some b \<or> hi = Some b)
      \<and> \<not> below_minimum lo b \<and> \<not> above_maximum hi b \<and> (i \<longrightarrow> is_integer b)
      \<and> map_of raw' (field_name f) = Some (JNum b)"
  then show "validate_field f raw' = Inr (Some (field_name f, JNum b))"
    by (auto simp: validate_field_def)
next
  assume b: "declared f = TNumber i lo hi \<and> (lo = Some b \<or> hi = Some b)
      \<and> \<not> below_minimum lo b \<and> \<not> above_maximum hi b \<and> (i \<longrightarrow> is_integer b)
      \<and> map_of raw' (field_name f) = Some (JNum b)"
  assume c: "f \<in> set s \<and> distinct (map field_name s)
             \<and> list_all (\<lambda>g. \<exists>r. validate_field g raw' = Inr r) s
             \<and> map_of reg n = Some tool \<and> tool_schema tool = s"
  from b have fv: "validate_field f raw' = Inr (Some (field_name f, JNum b))"
    by (auto simp: validate_field_def)
  from c obtain typed where "validate_fields s raw' = Inr typed"
    using validate_fields_all_pass [of raw' s] by blast
  then obtain args where args: "validate s raw' = Inr args"
    by (simp add: validate_def)
  from c fv have look: "map_of args (field_name f) = Some (JNum b)"
    using validate_lookup [OF args, of f "JNum b"] by blast
  from c args have "fst (snd (dispatch reg n raw' w)) = [args]"
    using dispatch_validated [of reg n tool raw' args w] by blast
  with args look show "\<exists>args. validate s raw' = Inr args \<and> map_of args (field_name f) = Some (JNum b)
                       \<and> fst (snd (dispatch reg n raw' w)) = [args]"
    by blast
qed

theorem range_constraint_enforced_witness:
  "validate countFiles_inputSchema [(''max_depth'', JNum (- 1))] = Inl (''max_depth'', OutOfRange)
   \<and> dispatch [(''count-files'', countFiles_tool)] ''count-files'' [(''max_depth'', JNum (- 1))]
        count_env_example =
       (\<lparr>content = [TextBlock [Lit ''out of range: '', Lit ''max_depth'']], isError = Some True\<rparr>,
        [], count_env_example)
   \<and> validate countFiles_inputSchema [(''max_depth'', JNum 0)] =
       Inr [(''count_files'', JBool True), (''count_folders'', JBool False),
            (''recursive'', JBool False), (''max_depth'', JNum 0)]
   \<and> fst (snd (dispatch [(''count-files'', countFiles_tool)] ''count-files''
                  [(''max_depth'', JNum 0)] count_env_example)) =
       [[(''count_files'', JBool True), (''count_folders'', JBool False),
         (''recursive'', JBool False), (''max_depth'', JNum 0)]]
   \<and> validate readFile_inputSchema [(''filePaths'', JStr ''a.txt''), (''startLine'', JNum 0)] =
       Inl (''startLine'', OutOfRange)
   \<and> validate readFile_inputSchema [(''filePaths'', JStr ''a.txt''), (''startLine'', JNum 1)] =
       Inr [(''filePaths'', JStr ''a.txt''), (''startLine'', JNum 1),
            (''encoding'', JStr ''utf-8''), (''binary_mode'', JBool False)]"
proof -
  let ?f = "optional (z_field ''max_depth'' (z_int_min 0))"
  let ?reg = "[(''count-files'', countFiles_tool)]"
  have fin: "?f \<in> set countFiles_inputSchema"
    by (simp add: countFiles_inputSchema_def)
  have decl: "declared ?f = TNumber True (Some 0) None"
    by (simp add: optional_def z_field_def z_int_min_def)
  have nm: "field_name ?f = ''max_depth''"
    by (simp add: optional_def z_field_def)
  have dist: "distinct (map field_name countFiles_inputSchema)"
    by (simp add: countFiles_inputSchema_def optional_def z_field_def default'_def)
  have pass: "list_all (\<lambda>g. \<exists>r. validate_field g [(''max_depth'', JNum 0)] = Inr r)
                countFiles_inputSchema"
    by (simp add: countFiles_inputSchema_def validate_field_def optional_def z_field_def
        default'_def z_int_min_def is_integer_def below_minimum_def above_maximum_def)
  have tool: "map_of ?reg ''count-files'' = Some countFiles_tool
              \<and> tool_schema countFiles_tool = countFiles_inputSchema"
    by (simp add: countFiles_tool_def)
  note inst = range_constraint_enforced
    [of ?f countFiles_inputSchema True "Some 0" None "[(''max_depth'', JNum (- 1))]" "- 1"
        ?reg "''count-files''" countFiles_tool count_env_example 0 "[(''max_depth'', JNum 0)]"]
  have v1: "validate countFiles_inputSchema [(''max_depth'', JNum (- 1))] = Inl (''max_depth'', OutOfRange)"
    by (simp add: validate_def countFiles_inputSchema_def validate_field_def optional_def
        z_field_def default'_def z_int_min_def is_integer_def below_minimum_def above_maximum_def)
  from inst fin decl nm tool
  obtain k c where kc: "validate countFiles_inputSchema [(''max_depth'', JNum (- 1))] = Inl (k, c)"
    and dis: "dispatch ?reg ''count-files'' [(''max_depth'', JNum (- 1))] count_env_example =
              (failure [Lit (describe c), Lit k], [], count_env_example)"
    by (auto simp: below_minimum_def)
  from kc v1 have "k = ''max_depth''" and "c = OutOfRange" by simp_all
  with dis have d1: "dispatch ?reg ''count-files'' [(''max_depth'', JNum (- 1))] count_env_example =
       (\<lparr>content = [TextBlock [Lit ''out of range: '', Lit ''max_depth'']], isError = Some True\<rparr>,
        [], count_env_example)"
    by (simp add: failure_def describe_def)
  have v2: "validate countFiles_inputSchema [(''max_depth'', JNum 0)] =
       Inr [(''count_files'', JBool True), (''count_folders'', JBool False),
            (''recursive'', JBool False), (''max_depth'', JNum 0)]"
    by (simp add: validate_def countFiles_inputSchema_def validate_field_def optional_def
        z_field_def default'_def z_int_min_def is_integer_def below_minimum_def above_maximum_def)
  from inst fin decl nm tool dist pass
  obtain args where "validate countFiles_inputSchema [(''max_depth'', JNum 0)] = Inr args"
    and "fst (snd (dispatch ?reg ''count-files'' [(''max_depth'', JNum 0)] count_env_example)) = [args]"
    by (auto simp: below_minimum_def above_maximum_def is_integer_def)
  with v2 have d2: "fst (snd (dispatch ?reg ''count-files'' [(''max_depth'', JNum 0)] count_env_example)) =
       [[(''count_files'', JBool True), (''count_folders'', JBool False),
         (''recursive'', JBool False), (''max_depth'', JNum 0)]]"
    by simp
  have r1: "validate readFile_inputSchema [(''filePaths'', JStr ''a.txt''), (''startLine'', JNum 0)] =
       Inl (''startLine'', OutOfRange)"
    by (simp add: validate_def readFile_inputSchema_def validate_field_def optional_def
        z_field_def default'_def z_int_min_def z_number_def is_integer_def below_minimum_def
        above_maximum_def is_JStr_def)
  have r2: "validate readFile_inputSchema [(''filePaths'', JStr ''a.txt''), (''startLine'', JNum 1)] =
       Inr [(''filePaths'', JStr ''a.txt''), (''startLine'', JNum 1),
            (''encoding'', JStr ''utf-8''), (''binary_mode'', JBool False)]"
    by (simp add: validate_def readFile_inputSchema_def validate_field_def optional_def
        z_field_def default'_def z_int_min_def z_number_def is_integer_def below_minimum_def
        above_maximum_def is_JStr_def)
  from v1 d1 v2 d2 r1 r2 show ?thesis by simp
qed

end
